theory Spec2Isabelle
  imports Complex_Main "HOL-Library.Word"
begin

unbundle bit_operations_syntax

text \<open>
  A model of the read-through cache of the contourguessr API (\<open>repos/repos.go\<close>) and of
  its ID codec (\<open>repos/challenge_id.go\<close>): the codec down to the bits, the queries
  against a snapshot, the two refresh cycles as functions of what the store and the
  network return, and the capability fetch as a function of its attempts. The parts of
  Go's libraries that the code calls (\<open>encoding/base32\<close>, \<open>encoding/binary\<close>,
  \<open>strconv\<close>, \<open>unicode/utf8\<close>, \<open>math/rand\<close>, \<open>backoff\<close>) are modelled after their
  documented behaviour. Locks, goroutines and timers are outside the model.
\<close>

section \<open>Errors\<close>

text \<open>
  Go reports failure in two ways: an \<open>error\<close> value returned to the caller, and a panic
  that unwinds the goroutine. Both are values of one datatype here, so that a panic is
  never confused with a returned error.
  \<^item> \<open>Panic\<close>: \<open>panic(...)\<close>, an index out of range, \<open>rand.Intn\<close> on a non-positive bound.
  \<^item> \<open>CorruptInputError\<close>: what \<open>encoding/base32\<close> returns for malformed input
    (the byte offset it carries is not modelled).
  \<^item> \<open>NoChallengesAvailableError\<close>, \<open>ChallengeNotFoundError\<close>: the two sentinel errors
    of \<open>repos.go\<close>.
  \<^item> \<open>OtherError\<close>: any other error value (relational store, network, formatted text).
\<close>

datatype error =
    Panic string
  | CorruptInputError
  | NoChallengesAvailableError
  | ChallengeNotFoundError
  | OtherError string

type_synonym byte = "8 word"

section \<open>encoding/base32 with the alphabet of \<open>challenge_id.go\<close>, no padding\<close>

text \<open>
  \<open>var encoding = base32.NewEncoding("abcdefghijklmnopqrstuvwxyz234567").WithPadding(base32.NoPadding)\<close>.
  The package is Go's standard library; it is modelled here at the level of its
  quantum-wise encoder and decoder: 5 source bytes make 8 symbols of 5 bits each.
\<close>

definition encodeStd :: string where
  "encodeStd = ''abcdefghijklmnopqrstuvwxyz234567''"

text \<open>\<open>NoPadding rune = -1\<close>; the decoder compares input bytes with \<open>byte(enc.padChar)\<close>.\<close>

definition NoPadding :: int where
  "NoPadding = - 1"

definition padChar :: int where
  "padChar = NoPadding"

definition padByte :: char where
  "padByte = char_of padChar"

text \<open>\<open>enc.encode[b & 31]\<close>: the symbol of a 5-bit value.\<close>

definition encodeSym :: "byte \<Rightarrow> char" where
  "encodeSym b = encodeStd ! unat (b AND 31)"

text \<open>\<open>enc.decodeMap[c]\<close>: the index of the symbol, \<open>0xFF\<close> for a byte outside the alphabet.\<close>

fun indexOf :: "char \<Rightarrow> string \<Rightarrow> nat \<Rightarrow> nat option" where
  "indexOf c [] i = None"
| "indexOf c (x # xs) i = (if x = c then Some i else indexOf c xs (Suc i))"

definition decodeMap :: "char \<Rightarrow> byte" where
  "decodeMap c = (case indexOf c encodeStd 0 of None \<Rightarrow> 0xFF | Some i \<Rightarrow> of_nat i)"

text \<open>
  A source byte of the current quantum; the encoder's \<open>switch len(src)\<close> skips the
  statements of the bytes that are not there and leaves their contribution to the
  zero-initialised \<open>b\<close> at zero, which is what reading a zero byte gives.
\<close>

definition byteAt :: "byte list \<Rightarrow> nat \<Rightarrow> byte" where
  "byteAt src i = (if i < length src then src ! i else 0)"

text \<open>Unpack up to 5 source bytes into the 8 five-bit blocks \<open>b[0..7]\<close>.\<close>

definition unpackQuantum :: "byte list \<Rightarrow> byte list" where
  "unpackQuantum src =
     [ drop_bit 3 (byteAt src 0),
       (push_bit 2 (byteAt src 0) AND 0x1F) OR (drop_bit 6 (byteAt src 1) AND 0x1F),
       drop_bit 1 (byteAt src 1) AND 0x1F,
       (push_bit 4 (byteAt src 1) AND 0x1F) OR (drop_bit 4 (byteAt src 2) AND 0x1F),
       (push_bit 1 (byteAt src 2) AND 0x1F) OR drop_bit 7 (byteAt src 3),
       drop_bit 2 (byteAt src 3) AND 0x1F,
       (push_bit 3 (byteAt src 3) AND 0x1F) OR drop_bit 5 (byteAt src 4),
       byteAt src 4 AND 0x1F ]"

text \<open>
  \<open>Encode\<close>: one quantum per 5 source bytes; the last, shorter one fills what is left of
  \<open>dst\<close>, whose length is \<open>EncodedLen(n) = (n * 8 + 4) / 5\<close> without padding.
\<close>

function encode :: "byte list \<Rightarrow> string" where
  "encode src =
     (if src = [] then []
      else if length src < 5
        then map encodeSym (take ((length src * 8 + 4) div 5) (unpackQuantum src))
      else map encodeSym (unpackQuantum (take 5 src)) @ encode (drop 5 src))"
  by pat_completeness auto
termination
  by (relation "measure length") auto

declare encode.simps [simp del]

definition EncodeToString :: "byte list \<Rightarrow> string" where
  "EncodeToString src = encode src"

text \<open>
  The inner loop of \<open>decode\<close>: read up to 8 symbols of one quantum. The result is the
  decoded 5-bit values (\<open>dbuf[0..dlen-1]\<close>), the flag \<open>end\<close> and the unread input.
  Without padding, running out of input ends the message. An input byte equal to
  \<open>byte(enc.padChar)\<close> at position \<open>j \<ge> 2\<close> of a quantum is taken as padding.
\<close>

fun readQuantum :: "nat \<Rightarrow> byte list \<Rightarrow> string \<Rightarrow> error + (byte list \<times> bool \<times> string)" where
  "readQuantum j dbuf [] =
     (if 8 \<le> j then Inr (dbuf, False, []) else Inr (dbuf, True, []))"
| "readQuantum j dbuf (c # src) =
     (if 8 \<le> j then Inr (dbuf, False, c # src)
      else if c = padByte \<and> 2 \<le> j \<and> length src < 8 then
        (if length src + j < 8 - 1 then Inl CorruptInputError
         else if \<exists>p \<in> set (take (8 - 1 - j) src). p \<noteq> padByte then Inl CorruptInputError
         else if j = 1 \<or> j = 3 \<or> j = 6 then Inl CorruptInputError
         else Inr (dbuf, True, src))
      else if decodeMap c = 0xFF then Inl CorruptInputError
      else readQuantum (Suc j) (dbuf @ [decodeMap c]) src)"

text \<open>
  Pack the 5-bit values of a quantum into bytes: \<open>switch dlen\<close> with cases 8, 7, 5, 4, 2
  falling through; a quantum of 1, 3 or 6 symbols matches no case and yields no byte.
\<close>

definition packQuantum :: "byte list \<Rightarrow> byte list" where
  "packQuantum dbuf =
     (let dlen = length dbuf in
      (if dlen \<in> {2, 4, 5, 7, 8}
         then [push_bit 3 (dbuf ! 0) OR drop_bit 2 (dbuf ! 1)] else []) @
      (if dlen \<in> {4, 5, 7, 8}
         then [push_bit 6 (dbuf ! 1) OR push_bit 1 (dbuf ! 2) OR drop_bit 4 (dbuf ! 3)] else []) @
      (if dlen \<in> {5, 7, 8}
         then [push_bit 4 (dbuf ! 3) OR drop_bit 1 (dbuf ! 4)] else []) @
      (if dlen \<in> {7, 8}
         then [push_bit 7 (dbuf ! 4) OR push_bit 2 (dbuf ! 5) OR drop_bit 3 (dbuf ! 6)] else []) @
      (if dlen = 8
         then [push_bit 5 (dbuf ! 6) OR dbuf ! 7] else []))"

lemma readQuantum_length:
  "readQuantum j dbuf src = Inr (d, e, rest) \<Longrightarrow> length rest \<le> length src"
  by (induction j dbuf src rule: readQuantum.induct) (auto split: if_splits)

lemma readQuantum_shorter:
  "readQuantum 0 dbuf (c # src) = Inr (d, e, rest) \<Longrightarrow> length rest \<le> length src"
  by (auto split: if_splits dest: readQuantum_length)

text \<open>The outer loop of \<open>decode\<close>: \<open>for len(src) > 0 && !end\<close>.\<close>

function decode :: "string \<Rightarrow> error + byte list" where
  "decode [] = Inr []"
| "decode (c # src) =
     (case readQuantum 0 [] (c # src) of
        Inl err \<Rightarrow> Inl err
      | Inr (dbuf, end, rest) \<Rightarrow>
          if end then Inr (packQuantum dbuf)
          else (case decode rest of
                  Inl err \<Rightarrow> Inl err
                | Inr bs \<Rightarrow> Inr (packQuantum dbuf @ bs)))"
  by pat_completeness auto
termination
proof (relation "measure length", goal_cases)
  case 1
  show ?case by simp
next
  case (2 c src x2 dbuf y e rest)
  then have "readQuantum 0 [] (c # src) = Inr (dbuf, e, rest)" by simp
  from readQuantum_shorter [OF this] show ?case by simp
qed

text \<open>\<open>stripNewlines\<close>: \<open>DecodeString\<close> ignores \<open>\r\<close> and \<open>\n\<close> anywhere in its input.\<close>

definition stripNewlines :: "string \<Rightarrow> string" where
  "stripNewlines s = filter (\<lambda>c. c \<noteq> CHR 0x0D \<and> c \<noteq> CHR 0x0A) s"

definition DecodeString :: "string \<Rightarrow> error + byte list" where
  "DecodeString s = decode (stripNewlines s)"

section \<open>encoding/binary, big endian\<close>

text \<open>\<open>PutUint32\<close> into a 4-byte slice and \<open>Uint32\<close>, which panics on a slice shorter than 4.\<close>

definition PutUint32 :: "32 word \<Rightarrow> byte list" where
  "PutUint32 v = [ucast (drop_bit 24 v), ucast (drop_bit 16 v), ucast (drop_bit 8 v), ucast v]"

definition Uint32 :: "byte list \<Rightarrow> error + 32 word" where
  "Uint32 b =
     (if length b < 4 then Inl (Panic ''index out of range'')
      else Inr (ucast (b ! 3) OR push_bit 8 (ucast (b ! 2)) OR
                push_bit 16 (ucast (b ! 1)) OR push_bit 24 (ucast (b ! 0))))"

section \<open>The ID codec (\<open>challenge_id.go\<close>)\<close>

text \<open>\<open>for bytes[0] == 0 { bytes = bytes[1:] }\<close>; indexing an empty slice panics.\<close>

fun stripLeadingZeros :: "byte list \<Rightarrow> error + byte list" where
  "stripLeadingZeros [] = Inl (Panic ''index out of range'')"
| "stripLeadingZeros (b # bs) = (if b = 0 then stripLeadingZeros bs else Inr (b # bs))"

text \<open>
  \<open>id\<close> is a Go \<open>int\<close> (64 bits, since the constant \<open>0xFFFFFFFF\<close> is compared with it);
  the guard leaves only values that \<open>uint32(id)\<close> converts without loss.
\<close>

definition encodeChallengeID :: "int \<Rightarrow> error + string" where
  "encodeChallengeID id' =
     (if id' \<le> 0 \<or> id' \<ge> 0xFFFFFFFF then Inl (Panic ''id out of bounds'')
      else (case stripLeadingZeros (PutUint32 (word_of_int id')) of
              Inl err \<Rightarrow> Inl err
            | Inr bytes \<Rightarrow> Inr (EncodeToString bytes)))"

text \<open>\<open>for len(bytes) < 4 { bytes = append([]byte{0}, bytes...) }\<close>\<close>

function padLeft :: "byte list \<Rightarrow> byte list" where
  "padLeft bytes = (if length bytes < 4 then padLeft (0 # bytes) else bytes)"
  by pat_completeness auto
termination
  by (relation "measure (\<lambda>bytes. 4 - length bytes)") auto

declare padLeft.simps [simp del]

definition decodeChallengeID :: "string \<Rightarrow> error + int" where
  "decodeChallengeID id' =
     (case DecodeString id' of
        Inl err \<Rightarrow> Inl err
      | Inr bytes \<Rightarrow>
          (case Uint32 (padLeft bytes) of
             Inl err \<Rightarrow> Inl err
           | Inr v \<Rightarrow> Inr (uint v)))"

section \<open>Decimal formatting (\<open>strconv.FormatInt(_, 10)\<close>)\<close>

function digits :: "nat \<Rightarrow> string" where
  "digits n = (if n < 10 then [''0123456789'' ! n] else digits (n div 10) @ [''0123456789'' ! (n mod 10)])"
  by pat_completeness auto
termination
  by (relation "measure id") auto

declare digits.simps [simp del]

definition FormatInt :: "int \<Rightarrow> string" where
  "FormatInt i = (if i < 0 then CHR ''-'' # digits (nat (- i)) else digits (nat i))"

section \<open>The data model (\<open>repos.go\<close>)\<close>

text \<open>
  A \<open>float64\<close> is only ever scanned from a row and copied, so it is kept as its 64-bit
  pattern; a \<open>time.Time\<close> as a number of nanoseconds; \<open>json.RawMessage\<close> as its bytes.
  The nested anonymous structs are flattened (\<open>Src.Preview\<close> is \<open>Src_Preview\<close>).
  The identifier fields are \<open>int\<close> in the first revision of the file and \<open>string\<close> (the
  decimal text) in the second; their type is the parameter \<open>'r\<close>.
\<close>

type_synonym float64 = "64 word"
type_synonym Time = int

record PictureSrc =
  Src :: string
  Width :: int
  Height :: int

record 'r Challenge =
  ID :: string
  RegionID :: 'r
  Geo_Lng :: float64
  Geo_Lat :: float64
  Title :: string
  DescriptionHTML :: string
  DateTaken :: "Time option"
  Link :: string
  Src_Preview :: PictureSrc
  Src_Regular :: PictureSrc
  Src_Large :: PictureSrc
  Photographer_Icon :: string
  Photographer_Text :: string
  Photographer_Link :: string
  R_X :: float64
  R_Y :: float64

record 'r MapLayer =
  ID :: 'r
  Name :: string
  CapabilitiesXML :: string
  Layer :: string
  MatrixSet :: string
  Resolutions :: "float64 list"
  DefaultResolution :: float64
  OSBranding :: bool
  ExtraAttributions :: "string list"

record 'r Region =
  ID :: 'r
  GeoJSON :: string
  Name :: string
  CountryISO2 :: string
  LogoURL :: string
  BBox_MinLng :: float64
  BBox_MaxLng :: float64
  BBox_MaxLat :: float64
  BBox_MinLat :: float64
  MapLayer :: "'r MapLayer"

text \<open>
  The snapshot fields of \<open>Repo\<close>. The pool, the wait groups and the mutex are not state of
  this model: every operation below is one critical section.
\<close>

record 'r Repo =
  regions :: "int \<rightharpoonup> 'r Region"
  challenges :: "int \<rightharpoonup> 'r Challenge"
  challengesByRegion :: "int \<rightharpoonup> 'r Challenge list"
  regionsWithChallenges :: "int list"

definition Regions :: "'r Repo \<Rightarrow> int \<rightharpoonup> 'r Region" where
  "Regions r = regions r"

text \<open>Reading a missing key of a \<open>map[int][]*Challenge\<close> gives the nil slice.\<close>

definition sliceAt :: "(int \<rightharpoonup> 'a list) \<Rightarrow> int \<Rightarrow> 'a list" where
  "sliceAt m k = (case m k of None \<Rightarrow> [] | Some list \<Rightarrow> list)"

section \<open>Random choice (\<open>math/rand\<close>)\<close>

text \<open>
  A finite distribution is a list of outcomes with their weights. \<open>rand.Intn(n)\<close> panics
  for \<open>n \<le> 0\<close> and otherwise returns each of \<open>0 .. n-1\<close> with the same weight. A panic
  or an error ends the computation: \<open>bindD\<close> passes it on with its weight.
\<close>

type_synonym 'a dist = "('a \<times> rat) list"

definition Intn :: "int \<Rightarrow> (error + int) dist" where
  "Intn n =
     (if n \<le> 0 then [(Inl (Panic ''invalid argument to Intn''), 1)]
      else map (\<lambda>k. (Inr (int k), 1 / of_int n)) [0..<nat n])"

definition bindD :: "(error + 'a) dist \<Rightarrow> ('a \<Rightarrow> (error + 'b) dist) \<Rightarrow> (error + 'b) dist" where
  "bindD d f =
     concat (map (\<lambda>(x, p). case x of
                               Inl err \<Rightarrow> [(Inl err, p)]
                             | Inr v \<Rightarrow> map (\<lambda>(y, q). (y, p * q)) (f v)) d)"

text \<open>The weight of the outcomes that satisfy \<open>P\<close>.\<close>

definition prob :: "'a dist \<Rightarrow> ('a \<Rightarrow> bool) \<Rightarrow> rat" where
  "prob d P = sum_list (map snd (filter (\<lambda>(x, p). P x) d))"

section \<open>Queries (\<open>repos.go\<close>)\<close>

text \<open>
  \<open>RandomChallenge\<close>, first half: the region id is the caller's, or the entry of
  \<open>regionsWithChallenges\<close> at the index \<open>rand.Intn(len(r.regionsWithChallenges))\<close>.
\<close>

definition pickRegion :: "'r Repo \<Rightarrow> int option \<Rightarrow> (error + int) dist" where
  "pickRegion r region =
     (case region of
        Some regionID \<Rightarrow> [(Inr regionID, 1)]
      | None \<Rightarrow>
          bindD (Intn (int (length (regionsWithChallenges r))))
            (\<lambda>i. [(Inr (regionsWithChallenges r ! nat i), 1)]))"

text \<open>Second half: the region's list, the check \<open>len(list) == 0\<close>, and the pick.\<close>

definition pickChallenge :: "'r Repo \<Rightarrow> int \<Rightarrow> (error + 'r Challenge) dist" where
  "pickChallenge r regionID =
     (let list = sliceAt (challengesByRegion r) regionID in
      if length list = 0 then [(Inl NoChallengesAvailableError, 1)]
      else bindD (Intn (int (length list))) (\<lambda>j. [(Inr (list ! nat j), 1)]))"

definition RandomChallenge :: "'r Repo \<Rightarrow> int option \<Rightarrow> (error + 'r Challenge) dist" where
  "RandomChallenge r region = bindD (pickRegion r region) (pickChallenge r)"

text \<open>\<open>func (r *Repo) Challenge(id string) (Challenge, error)\<close>\<close>

definition Challenge :: "'r Repo \<Rightarrow> string \<Rightarrow> error + 'r Challenge" where
  "Challenge r id' =
     (case decodeChallengeID id' of
        Inl err \<Rightarrow> Inl err
      | Inr internalID \<Rightarrow>
          (case challenges r internalID of
             None \<Rightarrow> Inl ChallengeNotFoundError
           | Some val \<Rightarrow> Inr val))"

section \<open>The challenge refresh (\<open>updateChallenges\<close>)\<close>

text \<open>
  What the store returns in one cycle: the query fails, or it gives rows, each of which
  \<open>rows.Scan\<close> reads or fails on. A row read is the scanned internal ids and the
  \<open>Challenge\<close> with its scanned fields filled in.

  The working maps are built off the snapshot. The keys of \<open>challengesByRegion\<close> are
  kept in the order of their first insertion, for the final \<open>range\<close> over the map; Go
  leaves that order open, and nothing below depends on it.
\<close>

type_synonym 'row rows = "(error + 'row) list"

fun scanChallenges ::
  "(int \<times> int \<times> string Challenge) rows \<Rightarrow>
   (int \<rightharpoonup> string Challenge) \<times> (int \<rightharpoonup> string Challenge list) \<times> int list \<Rightarrow>
   error + (int \<rightharpoonup> string Challenge) \<times> (int \<rightharpoonup> string Challenge list) \<times> int list" where
  "scanChallenges [] acc = Inr acc"
| "scanChallenges (Inl err # rows) acc = Inl err"
| "scanChallenges (Inr (internalID, internalRegionID, c) # rows) (cs, byRegion, keys) =
     (case encodeChallengeID internalID of
        Inl err \<Rightarrow> Inl err
      | Inr opaque \<Rightarrow>
          (let c' = c\<lparr>Challenge.ID := opaque, RegionID := FormatInt internalRegionID\<rparr> in
           scanChallenges rows
             (cs(internalID \<mapsto> c'),
              byRegion(internalRegionID \<mapsto> sliceAt byRegion internalRegionID @ [c']),
              if internalRegionID \<in> set keys then keys else keys @ [internalRegionID])))"

text \<open>The result is the returned error (or panic), if any, and the snapshot afterwards.\<close>

definition updateChallenges ::
  "string Repo \<Rightarrow> error + (int \<times> int \<times> string Challenge) rows \<Rightarrow> error option \<times> string Repo" where
  "updateChallenges r query =
     (case query of
        Inl err \<Rightarrow> (Some err, r)
      | Inr rows \<Rightarrow>
          (case scanChallenges rows (Map.empty, Map.empty, []) of
             Inl err \<Rightarrow> (Some err, r)
           | Inr (cs, byRegion, keys) \<Rightarrow>
               (None, r\<lparr>challenges := cs, challengesByRegion := byRegion,
                         regionsWithChallenges := keys\<rparr>)))"

text \<open>
  The first revision of \<open>updateChallenges\<close> in the file (its lines 379 to 421): the region
  id is scanned into \<open>c.RegionID\<close>, an \<open>int\<close> there, and both maps are indexed with it.
  (Its \<open>Challenge\<close> has \<open>Lng\<close> and \<open>Lat\<close> where the second revision has \<open>Geo.Lng\<close> and
  \<open>Geo.Lat\<close>; the record keeps the later names.)
\<close>

fun scanChallenges_rev1 ::
  "(int \<times> int Challenge) rows \<Rightarrow>
   (int \<rightharpoonup> int Challenge) \<times> (int \<rightharpoonup> int Challenge list) \<times> int list \<Rightarrow>
   error + (int \<rightharpoonup> int Challenge) \<times> (int \<rightharpoonup> int Challenge list) \<times> int list" where
  "scanChallenges_rev1 [] acc = Inr acc"
| "scanChallenges_rev1 (Inl err # rows) acc = Inl err"
| "scanChallenges_rev1 (Inr (internalID, c) # rows) (cs, byRegion, keys) =
     (case encodeChallengeID internalID of
        Inl err \<Rightarrow> Inl err
      | Inr opaque \<Rightarrow>
          (let c' = c\<lparr>Challenge.ID := opaque\<rparr> in
           scanChallenges_rev1 rows
             (cs(RegionID c' \<mapsto> c'),
              byRegion(RegionID c' \<mapsto> sliceAt byRegion (RegionID c') @ [c']),
              if RegionID c' \<in> set keys then keys else keys @ [RegionID c'])))"

definition updateChallenges_rev1 ::
  "int Repo \<Rightarrow> error + (int \<times> int Challenge) rows \<Rightarrow> error option \<times> int Repo" where
  "updateChallenges_rev1 r query =
     (case query of
        Inl err \<Rightarrow> (Some err, r)
      | Inr rows \<Rightarrow>
          (case scanChallenges_rev1 rows (Map.empty, Map.empty, []) of
             Inl err \<Rightarrow> (Some err, r)
           | Inr (cs, byRegion, keys) \<Rightarrow>
               (None, r\<lparr>challenges := cs, challengesByRegion := byRegion,
                         regionsWithChallenges := keys\<rparr>)))"

section \<open>The capability fetch (\<open>fetchCapabilities\<close>)\<close>

text \<open>\<open>utf8.Valid\<close>: the bytes still expected of the current character, then the rest.\<close>

definition inRange :: "nat \<Rightarrow> nat \<Rightarrow> char \<Rightarrow> bool" where
  "inRange lo hi c = (lo \<le> of_char c \<and> (of_char c :: nat) \<le> hi)"

fun validFrom :: "(nat \<times> nat) list \<Rightarrow> string \<Rightarrow> bool" where
  "validFrom [] [] = True"
| "validFrom ((lo, hi) # expect) [] = False"
| "validFrom ((lo, hi) # expect) (c # cs) = (inRange lo hi c \<and> validFrom expect cs)"
| "validFrom [] (c # cs) =
     (if inRange 0x00 0x7F c then validFrom [] cs
      else if inRange 0xC2 0xDF c then validFrom [(0x80, 0xBF)] cs
      else if inRange 0xE0 0xE0 c then validFrom [(0xA0, 0xBF), (0x80, 0xBF)] cs
      else if inRange 0xE1 0xEC c then validFrom [(0x80, 0xBF), (0x80, 0xBF)] cs
      else if inRange 0xED 0xED c then validFrom [(0x80, 0x9F), (0x80, 0xBF)] cs
      else if inRange 0xEE 0xEF c then validFrom [(0x80, 0xBF), (0x80, 0xBF)] cs
      else if inRange 0xF0 0xF0 c then validFrom [(0x90, 0xBF), (0x80, 0xBF), (0x80, 0xBF)] cs
      else if inRange 0xF1 0xF3 c then validFrom [(0x80, 0xBF), (0x80, 0xBF), (0x80, 0xBF)] cs
      else if inRange 0xF4 0xF4 c then validFrom [(0x80, 0x8F), (0x80, 0xBF), (0x80, 0xBF)] cs
      else False)"

definition utf8_Valid :: "string \<Rightarrow> bool" where
  "utf8_Valid p = validFrom [] p"

text \<open>\<open>err.Error()\<close>, as \<open>%v\<close> prints an error.\<close>

fun errorText :: "error \<Rightarrow> string" where
  "errorText (Panic msg) = msg"
| "errorText CorruptInputError = ''illegal base32 data''"
| "errorText NoChallengesAvailableError = ''no challenges available''"
| "errorText ChallengeNotFoundError = ''challenge not found''"
| "errorText (OtherError msg) = msg"

text \<open>
  One attempt meets the network three times: \<open>http.NewRequestWithContext\<close> may fail,
  \<open>c.Do\<close> fails or gives a response, and \<open>io.ReadAll\<close> of the body fails or gives bytes.
\<close>

record Response =
  StatusCode :: int
  Body :: "error + string"

record Attempt =
  newRequest :: "error option"
  doRequest :: "error + Response"

definition StatusOK :: int where
  "StatusOK = 200"

definition attempt :: "Attempt \<Rightarrow> error + string" where
  "attempt a =
     (case newRequest a of
        Some err \<Rightarrow> Inl err
      | None \<Rightarrow>
          (case doRequest a of
             Inl err \<Rightarrow> Inl err
           | Inr resp \<Rightarrow>
               if StatusCode resp \<noteq> StatusOK then
                 (let body = (case Body resp of
                                Inr v \<Rightarrow> v
                              | Inl err \<Rightarrow> ''<error reading body: '' @ errorText err @ ''>'')
                  in Inl (OtherError (''unexpected status code '' @ FormatInt (StatusCode resp) @
                                      '': '' @ body)))
               else
                 (case Body resp of
                    Inl err \<Rightarrow> Inl err
                  | Inr xml \<Rightarrow>
                      if \<not> utf8_Valid xml then Inl (OtherError ''invalid utf-8'')
                      else Inr xml)))"

text \<open>
  \<open>backoff.Retry\<close> with \<open>NewExponentialBackOff(WithMaxElapsedTime(1*time.Minute))\<close>. After
  a failed attempt \<open>NextBackOff\<close> reads the time elapsed since the start and draws the
  next interval; both are inputs here, in nanoseconds. It answers \<open>Stop\<close> when the
  interval would end after the budget. The attempts are a finite list: \<open>None\<close> means the
  list ran out before the loop ended.
\<close>

definition MaxElapsedTime :: int where
  "MaxElapsedTime = 1 * 60000000000"

definition NextBackOff :: "int \<Rightarrow> int \<Rightarrow> int option" where
  "NextBackOff elapsed next =
     (if MaxElapsedTime \<noteq> 0 \<and> elapsed + next > MaxElapsedTime then None else Some next)"

fun Retry :: "(Attempt \<times> int \<times> int) list \<Rightarrow> (error + string) option" where
  "Retry [] = None"
| "Retry ((a, elapsed, next) # later) =
     (case attempt a of
        Inr out \<Rightarrow> Some (Inr out)
      | Inl err \<Rightarrow>
          (case NextBackOff elapsed next of
             None \<Rightarrow> Some (Inl err)
           | Some wait \<Rightarrow> Retry later))"

definition fetchCapabilities :: "(Attempt \<times> int \<times> int) list \<Rightarrow> (error + string) option" where
  "fetchCapabilities attempts = Retry attempts"

section \<open>The region refresh (\<open>updateRegions\<close>)\<close>

text \<open>
  What the store and the network return in one cycle. A region row is the scanned id
  and the \<open>Region\<close> with its scanned fields; a map-layer row is the id, the \<open>MapLayer\<close>
  with its scanned fields (the capabilities URL sits in \<open>CapabilitiesXML\<close>) and the
  nullable \<open>os_branding\<close>. \<open>fetched id url\<close> is what \<open>fetchCapabilities\<close> returned to
  the goroutine started for that layer.
\<close>

record Cycle =
  Begin :: "error option"
  regionRows :: "error + (int \<times> string Region) rows"
  layerRows :: "error + (int \<times> string MapLayer \<times> bool option) rows"
  fetched :: "int \<Rightarrow> string \<Rightarrow> error + string"
  pairRows :: "error + (int \<times> int) rows"

fun scanRegions ::
  "(int \<times> string Region) rows \<Rightarrow> (int \<rightharpoonup> string Region) \<Rightarrow> error + (int \<rightharpoonup> string Region)" where
  "scanRegions [] out = Inr out"
| "scanRegions (Inl err # rows) out = Inl err"
| "scanRegions (Inr (internalID, r) # rows) out =
     scanRegions rows (out(internalID \<mapsto> r\<lparr>Region.ID := FormatInt internalID\<rparr>))"

fun scanLayers ::
  "(int \<times> string MapLayer \<times> bool option) rows \<Rightarrow> (int \<rightharpoonup> string MapLayer) \<Rightarrow>
   error + (int \<rightharpoonup> string MapLayer)" where
  "scanLayers [] mapLayers = Inr mapLayers"
| "scanLayers (Inl err # rows) mapLayers = Inl err"
| "scanLayers (Inr (internalID, ml, osBranding) # rows) mapLayers =
     (let ml1 = ml\<lparr>MapLayer.ID := FormatInt internalID\<rparr>;
          ml2 = (case osBranding of None \<Rightarrow> ml1 | Some b \<Rightarrow> ml1\<lparr>OSBranding := b\<rparr>)
      in scanLayers rows (mapLayers(internalID \<mapsto> ml2)))"

text \<open>
  The fan-out: one goroutine per entry of \<open>mapLayers\<close>, each changing its own entry
  under the cycle's lock: deleted when the fetch failed, enriched otherwise. The
  goroutine's id is \<open>strconv.Atoi(ml.ID)\<close>, the key under which the entry was stored.
\<close>

definition enrich ::
  "(int \<Rightarrow> string \<Rightarrow> error + string) \<Rightarrow> (int \<rightharpoonup> string MapLayer) \<Rightarrow> (int \<rightharpoonup> string MapLayer)" where
  "enrich fetch mapLayers =
     (\<lambda>id'. case mapLayers id' of
               None \<Rightarrow> None
             | Some ml \<Rightarrow>
                 (case fetch id' (CapabilitiesXML ml) of
                    Inl err \<Rightarrow> None
                  | Inr xml \<Rightarrow> Some (ml\<lparr>CapabilitiesXML := xml\<rparr>)))"

fun attachLayers ::
  "(int \<times> int) rows \<Rightarrow> (int \<rightharpoonup> string MapLayer) \<Rightarrow> (int \<rightharpoonup> string Region) \<Rightarrow>
   error + (int \<rightharpoonup> string Region)" where
  "attachLayers [] mapLayers out = Inr out"
| "attachLayers (Inl err # rows) mapLayers out = Inl err"
| "attachLayers (Inr (regionID, mlID) # rows) mapLayers out =
     (case out regionID of
        None \<Rightarrow> attachLayers rows mapLayers out
      | Some prevRegionValue \<Rightarrow>
          (case mapLayers mlID of
             None \<Rightarrow> attachLayers rows mapLayers (out(regionID := None))
           | Some ml \<Rightarrow>
               attachLayers rows mapLayers (out(regionID \<mapsto> prevRegionValue\<lparr>MapLayer := ml\<rparr>))))"

definition updateRegions :: "string Repo \<Rightarrow> Cycle \<Rightarrow> error option \<times> string Repo" where
  "updateRegions r cy =
     (case Begin cy of
        Some err \<Rightarrow> (Some err, r)
      | None \<Rightarrow>
     (case regionRows cy of
        Inl err \<Rightarrow> (Some err, r)
      | Inr rows1 \<Rightarrow>
     (case scanRegions rows1 Map.empty of
        Inl err \<Rightarrow> (Some err, r)
      | Inr out \<Rightarrow>
     (case layerRows cy of
        Inl err \<Rightarrow> (Some err, r)
      | Inr rows2 \<Rightarrow>
     (case scanLayers rows2 Map.empty of
        Inl err \<Rightarrow> (Some err, r)
      | Inr mapLayers \<Rightarrow>
     (case pairRows cy of
        Inl err \<Rightarrow> (Some err, r)
      | Inr rows3 \<Rightarrow>
     (case attachLayers rows3 (enrich (fetched cy) mapLayers) out of
        Inl err \<Rightarrow> (Some err, r)
      | Inr out' \<Rightarrow> (None, r\<lparr>regions := out'\<rparr>))))))))"

section \<open>Zero values and the repository after \<open>New\<close>\<close>

text \<open>
  Go's zero values of the structs (with the identifier field given), the values that
  \<open>var r Region\<close> and \<open>new(Challenge)\<close> start from, and the snapshot fields of a \<open>Repo\<close>
  that no refresh has written yet. They are the concrete inputs of the examples below.
\<close>

definition zeroPictureSrc :: PictureSrc where
  "zeroPictureSrc = \<lparr>Src = [], Width = 0, Height = 0\<rparr>"

definition zeroChallenge :: "'r \<Rightarrow> 'r Challenge" where
  "zeroChallenge rid =
     \<lparr>Challenge.ID = [], RegionID = rid, Geo_Lng = 0, Geo_Lat = 0, Title = [],
      DescriptionHTML = [], DateTaken = None, Link = [], Src_Preview = zeroPictureSrc,
      Src_Regular = zeroPictureSrc, Src_Large = zeroPictureSrc, Photographer_Icon = [],
      Photographer_Text = [], Photographer_Link = [], R_X = 0, R_Y = 0\<rparr>"

definition zeroMapLayer :: "'r \<Rightarrow> 'r MapLayer" where
  "zeroMapLayer lid =
     \<lparr>MapLayer.ID = lid, Name = [], CapabilitiesXML = [], Layer = [], MatrixSet = [],
      Resolutions = [], DefaultResolution = 0, OSBranding = False, ExtraAttributions = []\<rparr>"

definition zeroRegion :: "'r \<Rightarrow> 'r Region" where
  "zeroRegion rid =
     \<lparr>Region.ID = rid, GeoJSON = [], Name = [], CountryISO2 = [], LogoURL = [],
      BBox_MinLng = 0, BBox_MaxLng = 0, BBox_MaxLat = 0, BBox_MinLat = 0,
      MapLayer = zeroMapLayer rid\<rparr>"

definition newRepo :: "'r Repo" where
  "newRepo = \<lparr>regions = Map.empty, challenges = Map.empty, challengesByRegion = Map.empty,
              regionsWithChallenges = []\<rparr>"

text \<open>A cycle in which the store answers every query with no rows.\<close>

definition emptyCycle :: Cycle where
  "emptyCycle = \<lparr>Begin = None, regionRows = Inr [], layerRows = Inr [],
                 fetched = (\<lambda>id' url. Inl (OtherError ''no fetch'')), pairRows = Inr []\<rparr>"

section \<open>Properties of the base-32 model\<close>

lemma five_bit_mask: "(31::byte) = mask 5"
  by (simp add: mask_eq_exp_minus_1)

lemma bit_positions_byte: "{..<8::nat} = {7, 6, 5, 4, 3, 2, 1, 0}"
  by auto

lemma byte_eqI:
  fixes a b :: byte
  assumes "bit a 0 = bit b 0" "bit a 1 = bit b 1" "bit a 2 = bit b 2" "bit a 3 = bit b 3"
    "bit a 4 = bit b 4" "bit a 5 = bit b 5" "bit a 6 = bit b 6" "bit a 7 = bit b 7"
  shows "a = b"
proof (rule bit_word_eqI)
  fix pos assume "pos < LENGTH(8)"
  then have "pos \<in> {..<8}" by simp
  then have "pos \<in> {7, 6, 5, 4, 3, 2, 1, 0::nat}" by (simp only: bit_positions_byte)
  with assms show "bit a pos = bit b pos" by auto
qed

lemma bit_byte_double: "bit (a * 2 :: byte) n \<longleftrightarrow> n < 8 \<and> n \<noteq> 0 \<and> bit a (n - 1)"
  using bit_double_iff [of a n] by (simp add: mult.commute)

text \<open>Packing undoes unpacking, for a last quantum of 1, 2, 3 and 4 source bytes.\<close>

lemma pack_unpack_1:
  "packQuantum (map (\<lambda>b. b AND 31) (take 2 (unpackQuantum [x]))) = [x]"
  apply (simp add: packQuantum_def unpackQuantum_def byteAt_def five_bit_mask)
  apply (rule byte_eqI)
         apply (simp_all add: bit_simps bit_byte_double)
  done

lemma pack_unpack_2:
  "packQuantum (map (\<lambda>b. b AND 31) (take 4 (unpackQuantum [x, y]))) = [x, y]"
  apply (simp add: packQuantum_def unpackQuantum_def byteAt_def five_bit_mask)
  apply (intro conjI; rule byte_eqI)
                 apply (simp_all add: bit_simps bit_byte_double)
   apply (simp_all add: numeral_2_eq_2 numeral_3_eq_3)
  done

lemma pack_unpack_3:
  "packQuantum (map (\<lambda>b. b AND 31) (take 5 (unpackQuantum [x, y, z]))) = [x, y, z]"
  apply (simp add: packQuantum_def unpackQuantum_def byteAt_def five_bit_mask)
  apply (intro conjI; rule byte_eqI)
                      apply (simp_all add: bit_simps bit_byte_double)
    apply (simp_all add: numeral_2_eq_2 numeral_3_eq_3)
  done

lemma pack_unpack_4:
  "packQuantum (map (\<lambda>b. b AND 31) (take 7 (unpackQuantum [x, y, z, w]))) = [x, y, z, w]"
  apply (simp add: packQuantum_def unpackQuantum_def byteAt_def five_bit_mask)
  apply (intro conjI; rule byte_eqI)
                      apply (simp_all add: bit_simps bit_byte_double)
    apply (simp_all add: numeral_2_eq_2 numeral_3_eq_3)
  done

text \<open>The 32 symbols: each decodes to its index, and none is a newline or the pad byte.\<close>

lemma alphabet_table:
  "\<forall>n \<in> set [0..<32]. decodeMap (encodeStd ! n) = of_nat n \<and> encodeStd ! n \<noteq> padByte \<and>
      encodeStd ! n \<noteq> CHR 0x0A \<and> encodeStd ! n \<noteq> CHR 0x0D"
  by code_simp

lemma unat_five_bits: "unat (b AND (31::byte)) < 32"
proof -
  have "unat (b AND 31) \<le> unat (31 :: byte)"
    by (rule word_and_le1 [THEN word_le_nat_alt [THEN iffD1]])
  then show ?thesis by simp
qed

lemma decodeMap_encodeSym: "decodeMap (encodeSym b) = b AND 31"
  using alphabet_table unat_five_bits [of b] by (simp add: encodeSym_def)

lemma encodeSym_not_special:
  "encodeSym b \<noteq> padByte" "encodeSym b \<noteq> CHR 0x0A" "encodeSym b \<noteq> CHR 0x0D"
  using alphabet_table unat_five_bits [of b] by (simp_all add: encodeSym_def)

lemma decodeMap_encodeSym_valid: "decodeMap (encodeSym b) \<noteq> 0xFF"
proof
  assume "decodeMap (encodeSym b) = 0xFF"
  then have "unat (b AND 31) = unat (0xFF :: byte)" by (simp add: decodeMap_encodeSym)
  with unat_five_bits [of b] show False by simp
qed

lemma stripNewlines_symbols: "stripNewlines (map encodeSym bs) = map encodeSym bs"
  by (induction bs) (simp_all add: stripNewlines_def encodeSym_not_special)

lemma five_bits_valid: "b AND (31::byte) \<noteq> 255"
proof
  assume "b AND 31 = 255"
  then have "unat (b AND 31) = unat (255 :: byte)" by simp
  with unat_five_bits [of b] show False by simp
qed

lemma readQuantum_symbols:
  "j + length bs \<le> 8 \<Longrightarrow>
   readQuantum j dbuf (map encodeSym bs) =
     Inr (dbuf @ map (\<lambda>b. b AND 31) bs, j + length bs < 8, [])"
proof (induction bs arbitrary: j dbuf)
  case Nil
  then show ?case by auto
next
  case (Cons b bs)
  then have "j < 8" and "Suc j + length bs \<le> 8" by simp_all
  with Cons.IH [of "Suc j" "dbuf @ [decodeMap (encodeSym b)]"] show ?case
    by (simp add: encodeSym_not_special decodeMap_encodeSym five_bits_valid)
qed

lemma decode_symbols:
  assumes "bs \<noteq> []" "length bs < 8"
  shows "decode (map encodeSym bs) = Inr (packQuantum (map (\<lambda>b. b AND 31) bs))"
proof -
  obtain b bs' where bs: "bs = b # bs'" using assms(1) by (cases bs) auto
  have "readQuantum 0 [] (map encodeSym bs) = Inr (map (\<lambda>b. b AND 31) bs, True, [])"
    using readQuantum_symbols [of 0 bs "[]"] assms(2) by simp
  then show ?thesis by (simp add: bs)
qed

lemma short_list_cases:
  assumes "bs \<noteq> []" "length bs \<le> 4"
  obtains x where "bs = [x]" | x y where "bs = [x, y]"
    | x y z where "bs = [x, y, z]" | x y z w where "bs = [x, y, z, w]"
proof (cases bs)
  case Nil with assms show ?thesis by simp
next
  case (Cons x b1)
  show ?thesis
  proof (cases b1)
    case Nil with Cons that(1) show ?thesis by simp
  next
    case (Cons y b2)
    note c2 = this
    show ?thesis
    proof (cases b2)
      case Nil with c2 \<open>bs = x # b1\<close> that(2) show ?thesis by simp
    next
      case (Cons z b3)
      note c3 = this
      show ?thesis
      proof (cases b3)
        case Nil with c2 c3 \<open>bs = x # b1\<close> that(3) show ?thesis by simp
      next
        case (Cons w b4)
        with c2 c3 \<open>bs = x # b1\<close> assms(2) have "b4 = []" by simp
        with Cons c2 c3 \<open>bs = x # b1\<close> that(4) show ?thesis by simp
      qed
    qed
  qed
qed

lemma DecodeString_symbols:
  "q \<noteq> [] \<Longrightarrow> length q < 8 \<Longrightarrow>
   DecodeString (map encodeSym q) = Inr (packQuantum (map (\<lambda>b. b AND 31) q))"
  unfolding DecodeString_def stripNewlines_symbols by (rule decode_symbols)

lemma take_unpackQuantum:
  "0 < k \<Longrightarrow> k < 8 \<Longrightarrow> take k (unpackQuantum src) \<noteq> [] \<and> length (take k (unpackQuantum src)) < 8"
  by (cases k) (simp_all add: unpackQuantum_def)

lemma DecodeString_EncodeToString:
  assumes "bs \<noteq> []" "length bs \<le> 4"
  shows "DecodeString (EncodeToString bs) = Inr bs"
  using assms
proof (cases bs rule: short_list_cases)
  case (1 x)
  have enc: "EncodeToString [x] = map encodeSym (take 2 (unpackQuantum [x]))"
    by (simp add: EncodeToString_def encode.simps)
  have q: "take 2 (unpackQuantum [x]) \<noteq> []" "length (take 2 (unpackQuantum [x])) < 8"
    using take_unpackQuantum [of 2 "[x]"] by simp_all
  have "DecodeString (map encodeSym (take 2 (unpackQuantum [x]))) =
      Inr (packQuantum (map (\<lambda>b. b AND 31) (take 2 (unpackQuantum [x]))))"
    by (rule DecodeString_symbols [OF q])
  also have "\<dots> = Inr [x]" by (simp only: pack_unpack_1)
  finally show ?thesis by (simp only: 1 enc)
next
  case (2 x y)
  have enc: "EncodeToString [x, y] = map encodeSym (take 4 (unpackQuantum [x, y]))"
    by (simp add: EncodeToString_def encode.simps)
  have q: "take 4 (unpackQuantum [x, y]) \<noteq> []" "length (take 4 (unpackQuantum [x, y])) < 8"
    using take_unpackQuantum [of 4 "[x, y]"] by simp_all
  have "DecodeString (map encodeSym (take 4 (unpackQuantum [x, y]))) =
      Inr (packQuantum (map (\<lambda>b. b AND 31) (take 4 (unpackQuantum [x, y]))))"
    by (rule DecodeString_symbols [OF q])
  also have "\<dots> = Inr [x, y]" by (simp only: pack_unpack_2)
  finally show ?thesis by (simp only: 2 enc)
next
  case (3 x y z)
  have enc: "EncodeToString [x, y, z] = map encodeSym (take 5 (unpackQuantum [x, y, z]))"
    by (simp add: EncodeToString_def encode.simps)
  have q: "take 5 (unpackQuantum [x, y, z]) \<noteq> []" "length (take 5 (unpackQuantum [x, y, z])) < 8"
    using take_unpackQuantum [of 5 "[x, y, z]"] by simp_all
  have "DecodeString (map encodeSym (take 5 (unpackQuantum [x, y, z]))) =
      Inr (packQuantum (map (\<lambda>b. b AND 31) (take 5 (unpackQuantum [x, y, z]))))"
    by (rule DecodeString_symbols [OF q])
  also have "\<dots> = Inr [x, y, z]" by (simp only: pack_unpack_3)
  finally show ?thesis by (simp only: 3 enc)
next
  case (4 x y z w)
  have enc: "EncodeToString [x, y, z, w] = map encodeSym (take 7 (unpackQuantum [x, y, z, w]))"
    by (simp add: EncodeToString_def encode.simps)
  have q: "take 7 (unpackQuantum [x, y, z, w]) \<noteq> []" "length (take 7 (unpackQuantum [x, y, z, w])) < 8"
    using take_unpackQuantum [of 7 "[x, y, z, w]"] by simp_all
  have "DecodeString (map encodeSym (take 7 (unpackQuantum [x, y, z, w]))) =
      Inr (packQuantum (map (\<lambda>b. b AND 31) (take 7 (unpackQuantum [x, y, z, w]))))"
    by (rule DecodeString_symbols [OF q])
  also have "\<dots> = Inr [x, y, z, w]" by (simp only: pack_unpack_4)
  finally show ?thesis by (simp only: 4 enc)
qed

lemma Uint32_PutUint32: "Uint32 (PutUint32 w) = Inr w"
proof -
  define r :: "32 word" where
    "r = ucast (ucast w :: byte) OR push_bit 8 (ucast (ucast (drop_bit 8 w) :: byte)) OR
        push_bit 16 (ucast (ucast (drop_bit 16 w) :: byte)) OR
        push_bit 24 (ucast (ucast (drop_bit 24 w) :: byte))"
  have "r = w"
  proof (rule bit_word_eqI)
    fix n assume "n < LENGTH(32)"
    then consider "n < 8" | "8 \<le> n \<and> n < 16" | "16 \<le> n \<and> n < 24" | "24 \<le> n \<and> n < 32"
      by fastforce
    then show "bit r n = bit w n"
      unfolding r_def by cases (auto simp: bit_simps)
  qed
  then show ?thesis by (simp add: Uint32_def PutUint32_def r_def)
qed

text \<open>Stripping the leading zero bytes of a 4-byte slice and padding back restores it.\<close>

lemma padLeft_short: "length bs < 4 \<Longrightarrow> padLeft bs = padLeft (0 # bs)"
  by (subst padLeft.simps) simp

lemma padLeft_full: "\<not> length bs < 4 \<Longrightarrow> padLeft bs = bs"
  by (subst padLeft.simps) simp

lemma padLeft_stripLeadingZeros:
  assumes "stripLeadingZeros [a, b, c, d] = Inr bs'"
  shows "padLeft bs' = [a, b, c, d] \<and> bs' \<noteq> [] \<and> length bs' \<le> 4"
proof (cases "a = 0")
  case False
  with assms show ?thesis by (auto simp: padLeft_full)
next
  case a: True
  show ?thesis
  proof (cases "b = 0")
    case False
    with a assms show ?thesis by (auto simp: padLeft_short padLeft_full)
  next
    case b: True
    show ?thesis
    proof (cases "c = 0")
      case False
      with a b assms show ?thesis by (auto simp: padLeft_short padLeft_full)
    next
      case c: True
      with a b assms show ?thesis
        by (cases "d = 0") (auto simp: padLeft_short padLeft_full)
    qed
  qed
qed

lemma stripLeadingZeros_PutUint32:
  assumes "w \<noteq> 0"
  shows "\<exists>bs'. stripLeadingZeros (PutUint32 w) = Inr bs'"
proof (rule ccontr)
  assume "\<not> ?thesis"
  then have "PutUint32 w = [0, 0, 0, 0]"
    by (auto simp: PutUint32_def split: if_splits)
  then have "Uint32 (PutUint32 w) = Inr 0" by (simp add: Uint32_def)
  with assms show False by (simp add: Uint32_PutUint32)
qed

lemma decode_encode_ChallengeID:
  assumes "1 \<le> i" "i \<le> 2 ^ 32 - 2"
  shows "\<exists>s. encodeChallengeID i = Inr s \<and> decodeChallengeID s = Inr i"
proof -
  let ?w = "word_of_int i :: 32 word"
  have u: "uint ?w = i" using assms by (simp add: uint_word_of_int take_bit_int_eq_self)
  then have "?w \<noteq> 0" using assms by auto
  then obtain bs' where s: "stripLeadingZeros (PutUint32 ?w) = Inr bs'"
    using stripLeadingZeros_PutUint32 by blast
  from padLeft_stripLeadingZeros [OF s [unfolded PutUint32_def]]
  have p: "padLeft bs' = PutUint32 ?w" "bs' \<noteq> []" "length bs' \<le> 4"
    by (simp_all add: PutUint32_def)
  have e: "encodeChallengeID i = Inr (EncodeToString bs')"
    using assms s by (simp add: encodeChallengeID_def)
  have "decodeChallengeID (EncodeToString bs') = Inr i"
    by (simp add: decodeChallengeID_def DecodeString_EncodeToString [OF p(2,3)] p(1)
        Uint32_PutUint32 u)
  with e show ?thesis by blast
qed

lemma indexOf_None: "indexOf c xs i = None \<longleftrightarrow> c \<notin> set xs"
  by (induction xs arbitrary: i) auto

lemma indexOf_Some: "indexOf c xs i = Some k \<Longrightarrow> i \<le> k \<and> k < i + length xs"
  by (induction xs arbitrary: i) (fastforce split: if_splits)+

lemma decodeMap_invalid: "decodeMap c = 0xFF \<longleftrightarrow> c \<notin> set encodeStd"
proof (cases "indexOf c encodeStd 0")
  case None
  then show ?thesis using indexOf_None [of c encodeStd 0] by (simp add: decodeMap_def)
next
  case (Some k)
  from indexOf_Some [OF this] have k: "k < 32" by (simp add: encodeStd_def)
  have "c \<in> set encodeStd" using Some indexOf_None [of c encodeStd 0] by auto
  moreover have "(of_nat k :: byte) \<noteq> 0xFF"
  proof
    assume "(of_nat k :: byte) = 0xFF"
    then have "unat (of_nat k :: byte) = 255" by simp
    with k show False by (simp add: unat_of_nat)
  qed
  ultimately show ?thesis using Some by (simp add: decodeMap_def)
qed

lemma readQuantum_error: "readQuantum j dbuf src = Inl e \<Longrightarrow> e = CorruptInputError"
  by (induction j dbuf src rule: readQuantum.induct) (auto split: if_splits)

lemma readQuantum_consumed:
  "padByte \<notin> set src \<Longrightarrow> readQuantum j dbuf src = Inr (d, e, rest) \<Longrightarrow>
   (\<exists>pre. src = pre @ rest \<and> (\<forall>c \<in> set pre. decodeMap c \<noteq> 0xFF)) \<and> (e \<longrightarrow> rest = [])"
proof (induction j dbuf src rule: readQuantum.induct)
  case (1 j dbuf)
  then show ?case by (auto split: if_splits)
next
  case (2 j dbuf c src)
  show ?case
  proof (cases "8 \<le> j")
    case True
    with 2 show ?thesis by auto
  next
    case False
    with 2 have c: "c \<noteq> padByte" "decodeMap c \<noteq> 0xFF"
      and r: "readQuantum (Suc j) (dbuf @ [decodeMap c]) src = Inr (d, e, rest)"
      by (auto split: if_splits)
    from "2.IH" [OF False] c r "2.prems"(1)
    obtain pre where "src = pre @ rest" "\<forall>c \<in> set pre. decodeMap c \<noteq> 0xFF" "e \<longrightarrow> rest = []"
      by auto
    with c show ?thesis by (auto intro: exI [of _ "c # pre"])
  qed
qed

lemma decode_invalid:
  "padByte \<notin> set s \<Longrightarrow> \<exists>c \<in> set s. decodeMap c = 0xFF \<Longrightarrow> decode s = Inl CorruptInputError"
proof (induction s rule: length_induct)
  case (1 s)
  from "1.prems"(2) obtain c src where s: "s = c # src" by (cases s) auto
  show ?case
  proof (cases "readQuantum 0 [] s")
    case (Inl e)
    with readQuantum_error [OF Inl] show ?thesis by (simp add: s)
  next
    case (Inr t)
    obtain d e rest where t: "t = (d, e, rest)" by (cases t) auto
    from readQuantum_consumed [OF "1.prems"(1) Inr [unfolded t]]
    obtain pre where pre: "s = pre @ rest" "\<forall>c \<in> set pre. decodeMap c \<noteq> 0xFF" "e \<longrightarrow> rest = []"
      by auto
    from pre "1.prems" have bad: "\<exists>c \<in> set rest. decodeMap c = 0xFF" "padByte \<notin> set rest" by auto
    then have ne: "\<not> e" using pre(3) by auto
    have "length rest < length s"
      using readQuantum_shorter [of "[]" c src d e rest] Inr by (simp add: s t)
    with "1.IH" bad have "decode rest = Inl CorruptInputError" by blast
    with Inr ne show ?thesis by (simp add: s t)
  qed
qed

lemma stripNewlines_set: "set (stripNewlines s) = set s - {CHR 0x0D, CHR 0x0A}"
  by (auto simp: stripNewlines_def)

lemma decodeChallengeID_invalid:
  assumes "padByte \<notin> set s" "\<exists>c \<in> set s. c \<notin> set encodeStd \<and> c \<noteq> CHR 0x0A \<and> c \<noteq> CHR 0x0D"
  shows "decodeChallengeID s = Inl CorruptInputError"
proof -
  have "padByte \<notin> set (stripNewlines s)" using assms(1) by (simp add: stripNewlines_set)
  moreover have "\<exists>c \<in> set (stripNewlines s). decodeMap c = 0xFF"
    using assms(2) by (auto simp: stripNewlines_set decodeMap_invalid)
  ultimately have "decode (stripNewlines s) = Inl CorruptInputError" by (rule decode_invalid)
  then show ?thesis by (simp add: decodeChallengeID_def DecodeString_def)
qed

section \<open>The claims about the ID codec\<close>

text \<open>
  Claim C1. On the domain \<open>1 .. 2^32 - 2\<close> decoding undoes encoding:
  \<open>encodeChallengeID\<close> returns a string and \<open>decodeChallengeID\<close> of that string succeeds
  with the original id; hence \<open>encodeChallengeID\<close> is injective there. For an id that is
  0, negative or at least \<open>2^32 - 1\<close> the encoder panics (it has no error return).
\<close>

theorem codec_bijection:
  "(1 \<le> i \<and> i \<le> 2 ^ 32 - 2 \<longrightarrow> (\<exists>s. encodeChallengeID i = Inr s \<and> decodeChallengeID s = Inr i)) \<and>
   (1 \<le> i \<and> i \<le> 2 ^ 32 - 2 \<and> 1 \<le> j \<and> j \<le> 2 ^ 32 - 2 \<and>
      encodeChallengeID i = encodeChallengeID j \<longrightarrow> i = j) \<and>
   (k \<le> 0 \<or> 2 ^ 32 - 1 \<le> k \<longrightarrow> encodeChallengeID k = Inl (Panic ''id out of bounds''))"
proof (intro conjI impI)
  assume "1 \<le> i \<and> i \<le> 2 ^ 32 - 2"
  then show "\<exists>s. encodeChallengeID i = Inr s \<and> decodeChallengeID s = Inr i"
    using decode_encode_ChallengeID [of i] by simp
next
  assume a: "1 \<le> i \<and> i \<le> 2 ^ 32 - 2 \<and> 1 \<le> j \<and> j \<le> 2 ^ 32 - 2 \<and>
      encodeChallengeID i = encodeChallengeID j"
  then obtain s where s: "encodeChallengeID i = Inr s" "decodeChallengeID s = Inr i"
    using decode_encode_ChallengeID [of i] by auto
  from a obtain t where t: "encodeChallengeID j = Inr t" "decodeChallengeID t = Inr j"
    using decode_encode_ChallengeID [of j] by auto
  from a s t show "i = j" by simp
next
  assume "k \<le> 0 \<or> 2 ^ 32 - 1 \<le> k"
  then show "encodeChallengeID k = Inl (Panic ''id out of bounds'')"
    by (auto simp: encodeChallengeID_def)
qed

theorem codec_bijection_witness:
  "(1::int) \<le> 65536 \<and> (65536::int) \<le> 2 ^ 32 - 2 \<and>
   (\<exists>s. encodeChallengeID 65536 = Inr s \<and> decodeChallengeID s = Inr 65536) \<and>
   encodeChallengeID 65536 = encodeChallengeID 65536 \<and>
   (0::int) \<le> 0 \<and> encodeChallengeID 0 = Inl (Panic ''id out of bounds'')"
  using codec_bijection [of 65536 65536 0] by simp

text \<open>
  Claim C9, as amended. The three fixed samples encode and decode as listed. A string
  with a byte outside the 32 symbols is rejected with \<open>CorruptInputError\<close>, provided that
  byte is neither a carriage return nor a line feed and the string holds no byte
  \<open>0xFF\<close>: \<open>DecodeString\<close> skips \<open>\r\<close> and \<open>\n\<close>, and nothing is promised here about
  strings with the byte that equals \<open>byte(NoPadding)\<close>.
\<close>

theorem codec_samples:
  "encodeChallengeID 1 = Inr ''ae'' \<and> encodeChallengeID 42 = Inr ''fi'' \<and>
   encodeChallengeID 2048 = Inr ''baaa'' \<and>
   decodeChallengeID ''ae'' = Inr 1 \<and> decodeChallengeID ''fi'' = Inr 42 \<and>
   decodeChallengeID ''baaa'' = Inr 2048 \<and>
   (padByte \<notin> set s \<and> (\<exists>c \<in> set s. c \<notin> set encodeStd \<and> c \<noteq> CHR 0x0A \<and> c \<noteq> CHR 0x0D)
      \<longrightarrow> decodeChallengeID s = Inl CorruptInputError)"
proof -
  have "encodeChallengeID 1 = Inr ''ae''" by code_simp
  moreover have "encodeChallengeID 42 = Inr ''fi''" by code_simp
  moreover have "encodeChallengeID 2048 = Inr ''baaa''" by code_simp
  moreover have "decodeChallengeID ''ae'' = Inr 1" by code_simp
  moreover have "decodeChallengeID ''fi'' = Inr 42" by code_simp
  moreover have "decodeChallengeID ''baaa'' = Inr 2048" by code_simp
  ultimately show ?thesis using decodeChallengeID_invalid [of s] by blast
qed

theorem codec_samples_witness:
  "padByte \<notin> set ''not-base32!'' \<and>
   (\<exists>c \<in> set ''not-base32!''. c \<notin> set encodeStd \<and> c \<noteq> CHR 0x0A \<and> c \<noteq> CHR 0x0D) \<and>
   decodeChallengeID ''not-base32!'' = Inl CorruptInputError \<and>
   encodeChallengeID 2048 = Inr ''baaa'' \<and> decodeChallengeID ''baaa'' = Inr 2048"
proof -
  have h: "padByte \<notin> set ''not-base32!''"
    "\<exists>c \<in> set ''not-base32!''. c \<notin> set encodeStd \<and> c \<noteq> CHR 0x0A \<and> c \<noteq> CHR 0x0D"
    by code_simp+
  with codec_samples [of "''not-base32!''"] show ?thesis by blast
qed

text \<open>
  The claim C9 as it is written fails: the line feed is outside the alphabet, and the
  string \<open>"ae\n"\<close> that contains it decodes to 1.
\<close>

theorem decode_newline_counterexample:
  "CHR 0x0A \<in> set (''ae'' @ [CHR 0x0A]) \<and> CHR 0x0A \<notin> set encodeStd \<and>
   decodeChallengeID (''ae'' @ [CHR 0x0A]) = Inr 1"
  by code_simp

text \<open>
  Claim C10. The decoder accepts strings that the encoder never produces: \<open>"aa"\<close> decodes
  to 0, on which the encoder panics; \<open>"aaaq"\<close> and \<open>"ae"\<close> are different strings that both
  decode to 1, and encoding 1 gives \<open>"ae"\<close>, not \<open>"aaaq"\<close>.
\<close>

theorem decode_outside_image:
  "decodeChallengeID ''aa'' = Inr 0 \<and> encodeChallengeID 0 = Inl (Panic ''id out of bounds'') \<and>
   decodeChallengeID ''aaaq'' = Inr 1 \<and> decodeChallengeID ''ae'' = Inr 1 \<and> ''aaaq'' \<noteq> ''ae'' \<and>
   encodeChallengeID 1 = Inr ''ae''"
  by code_simp

lemma decode_error: "decode s = Inl e \<Longrightarrow> e = CorruptInputError"
proof (induction s rule: decode.induct)
  case 1
  then show ?case by simp
next
  case (2 c src)
  show ?case
  proof (cases "readQuantum 0 [] (c # src)")
    case (Inl e')
    with "2.prems" readQuantum_error [OF Inl] show ?thesis by simp
  next
    case (Inr t)
    obtain d fin rest where t: "t = (d, fin, rest)" by (cases t) auto
    show ?thesis
    proof (cases fin)
      case True
      with "2.prems" Inr t show ?thesis by simp
    next
      case False
      with "2.prems" Inr t have "decode rest = Inl e" by (simp split: sum.splits)
      with "2.IH" [OF Inr [unfolded t] refl refl] False show ?thesis by simp
    qed
  qed
qed

lemma length_padLeft: "4 \<le> length (padLeft bs)"
proof (induction bs rule: padLeft.induct)
  case (1 bytes)
  then show ?case by (cases "length bytes < 4") (simp_all add: padLeft_short padLeft_full)
qed

lemma decodeChallengeID_error: "decodeChallengeID s = Inl e \<Longrightarrow> e = CorruptInputError"
  using length_padLeft [of "projr (DecodeString s)"]
  by (auto simp: decodeChallengeID_def DecodeString_def Uint32_def split: sum.splits if_splits
      dest: decode_error)

section \<open>The claims about the queries\<close>

text \<open>
  Claim C4. \<open>Challenge\<close> passes on the decoder's error for an opaque id the codec rejects;
  that error is the base-32 \<open>CorruptInputError\<close> and differs from
  \<open>ChallengeNotFoundError\<close>, which is returned when the id decodes and the decoded internal
  id is not a key of the challenge snapshot. When the key is there, the stored challenge
  is returned.
\<close>

theorem Challenge_lookup:
  "(decodeChallengeID s1 = Inl e \<longrightarrow>
      Challenge r s1 = Inl e \<and> e = CorruptInputError \<and> e \<noteq> ChallengeNotFoundError) \<and>
   (decodeChallengeID s2 = Inr i \<and> challenges r i = None \<longrightarrow>
      Challenge r s2 = Inl ChallengeNotFoundError) \<and>
   (decodeChallengeID s3 = Inr k \<and> challenges r k = Some c \<longrightarrow> Challenge r s3 = Inr c)"
  by (auto simp: Challenge_def dest: decodeChallengeID_error)

theorem Challenge_lookup_witness:
  "decodeChallengeID ''not-base32!'' = Inl CorruptInputError \<and>
   Challenge (snd (updateChallenges newRepo (Inr [Inr (5, 7, zeroChallenge [])]))) ''not-base32!''
     = Inl CorruptInputError \<and>
   decodeChallengeID ''honmt7y'' = Inr 999999999 \<and>
   challenges (snd (updateChallenges newRepo (Inr [Inr (5, 7, zeroChallenge [])]))) 999999999 = None \<and>
   Challenge (snd (updateChallenges newRepo (Inr [Inr (5, 7, zeroChallenge [])]))) ''honmt7y''
     = Inl ChallengeNotFoundError \<and>
   decodeChallengeID ''au'' = Inr 5 \<and>
   challenges (snd (updateChallenges newRepo (Inr [Inr (5, 7, zeroChallenge [])]))) 5
     = Some ((zeroChallenge [])\<lparr>Challenge.ID := ''au'', RegionID := ''7''\<rparr>) \<and>
   Challenge (snd (updateChallenges newRepo (Inr [Inr (5, 7, zeroChallenge [])]))) ''au''
     = Inr ((zeroChallenge [])\<lparr>Challenge.ID := ''au'', RegionID := ''7''\<rparr>)"
proof -
  let ?r = "snd (updateChallenges newRepo (Inr [Inr (5, 7, zeroChallenge [])]))"
  have d1: "decodeChallengeID ''not-base32!'' = Inl CorruptInputError" by code_simp
  have d2: "decodeChallengeID ''honmt7y'' = Inr 999999999" by code_simp
  have d3: "decodeChallengeID ''au'' = Inr 5" by code_simp
  have e5: "encodeChallengeID 5 = Inr ''au''" by code_simp
  have f7: "FormatInt 7 = ''7''" by code_simp
  have c2: "challenges ?r 999999999 = None"
    by (simp add: updateChallenges_def newRepo_def e5 Let_def)
  have c3: "challenges ?r 5 = Some ((zeroChallenge [])\<lparr>Challenge.ID := ''au'', RegionID := ''7''\<rparr>)"
    by (simp add: updateChallenges_def newRepo_def e5 f7 Let_def)
  from Challenge_lookup [of "''not-base32!''" CorruptInputError ?r "''honmt7y''" 999999999 "''au''" 5
      "(zeroChallenge [])\<lparr>Challenge.ID := ''au'', RegionID := ''7''\<rparr>"] d1 d2 d3 c2 c3
  show ?thesis by simp
qed

text \<open>
  Claim C3 at the input where the code departs from it. A refresh that loads no row
  succeeds and publishes an empty list of regions with challenges; \<open>RandomChallenge(nil)\<close>
  then calls \<open>rand.Intn(0)\<close>, which panics, instead of returning
  \<open>NoChallengesAvailableError\<close>.
\<close>

theorem RandomChallenge_nil_empty_panics:
  "fst (updateChallenges newRepo (Inr [])) = None \<and>
   regionsWithChallenges (snd (updateChallenges newRepo (Inr []))) = [] \<and>
   RandomChallenge (snd (updateChallenges newRepo (Inr []))) None
     = [(Inl (Panic ''invalid argument to Intn''), 1)]"
  by (simp add: RandomChallenge_def updateChallenges_def pickRegion_def Intn_def bindD_def
      newRepo_def)

text \<open>With a region id given, an empty or missing list gives \<open>NoChallengesAvailableError\<close>.\<close>

lemma RandomChallenge_region_empty:
  "sliceAt (challengesByRegion r) regionID = [] \<Longrightarrow>
   RandomChallenge r (Some regionID) = [(Inl NoChallengesAvailableError, 1)]"
  by (simp add: RandomChallenge_def pickRegion_def pickChallenge_def bindD_def)

section \<open>The claims about the refresh cycles\<close>

lemma updateRegions_failure: "fst (updateRegions r cy) = Some err \<Longrightarrow> snd (updateRegions r cy) = r"
  by (auto simp: updateRegions_def split: option.splits sum.splits)

lemma updateRegions_success:
  "fst (updateRegions r cy) = None \<Longrightarrow>
   \<exists>rows1 out rows2 mapLayers rows3 out'.
      Begin cy = None \<and>
      regionRows cy = Inr rows1 \<and> scanRegions rows1 Map.empty = Inr out \<and>
      layerRows cy = Inr rows2 \<and> scanLayers rows2 Map.empty = Inr mapLayers \<and>
      pairRows cy = Inr rows3 \<and>
      attachLayers rows3 (enrich (fetched cy) mapLayers) out = Inr out' \<and>
      snd (updateRegions r cy) = r\<lparr>regions := out'\<rparr>"
  by (auto simp: updateRegions_def split: option.splits sum.splits)

lemma updateChallenges_failure:
  "fst (updateChallenges r q) = Some err \<Longrightarrow> snd (updateChallenges r q) = r"
  by (auto simp: updateChallenges_def split: option.splits sum.splits)

lemma updateChallenges_success:
  "fst (updateChallenges r q) = None \<Longrightarrow>
   \<exists>rows cs byRegion keys.
      q = Inr rows \<and>
      scanChallenges rows (Map.empty, Map.empty, []) = Inr (cs, byRegion, keys) \<and>
      snd (updateChallenges r q) =
        r\<lparr>challenges := cs, challengesByRegion := byRegion, regionsWithChallenges := keys\<rparr>"
  by (auto simp: updateChallenges_def split: option.splits sum.splits)

text \<open>An error of a query or of the scan of a row is what the cycle returns.\<close>

lemma scanRegions_rows: "scanRegions rows out = Inr out' \<Longrightarrow> Inl e \<notin> set rows"
  by (induction rows out rule: scanRegions.induct) auto

lemma scanLayers_rows: "scanLayers rows ls = Inr ls' \<Longrightarrow> Inl e \<notin> set rows"
  by (induction rows ls rule: scanLayers.induct) (auto simp: Let_def)

lemma attachLayers_rows: "attachLayers rows ls out = Inr out' \<Longrightarrow> Inl e \<notin> set rows"
  by (induction rows ls out rule: attachLayers.induct) (auto split: option.splits)

lemma scanChallenges_rows: "scanChallenges rows acc = Inr acc' \<Longrightarrow> Inl e \<notin> set rows"
  by (induction rows acc rule: scanChallenges.induct) (auto simp: Let_def split: sum.splits)

lemma updateRegions_store_error:
  assumes "Begin cy = Some e \<or> regionRows cy = Inl e \<or> layerRows cy = Inl e \<or> pairRows cy = Inl e \<or>
     Inl e \<in> set (projr (regionRows cy)) \<or> Inl e \<in> set (projr (layerRows cy)) \<or>
     Inl e \<in> set (projr (pairRows cy))"
  shows "\<exists>e'. fst (updateRegions r cy) = Some e'"
  using assms
  by (auto simp: updateRegions_def split: option.splits sum.splits
      dest: scanRegions_rows scanLayers_rows attachLayers_rows)

lemma updateChallenges_store_error:
  assumes "q = Inl e \<or> Inl e \<in> set (projr q)"
  shows "\<exists>e'. fst (updateChallenges r q) = Some e'"
  using assms by (auto simp: updateChallenges_def split: sum.splits dest: scanChallenges_rows)

text \<open>
  Claim C6. A cycle that returns an error leaves every snapshot field as it was. A cycle
  that returns no error replaces the snapshot fields by one record update with what it
  built from this cycle's rows: \<open>updateRegions\<close> installs as \<open>regions\<close> the map that the
  loop over the \<open>region_map_layers\<close> rows leaves, starting from the scanned regions and
  the enriched layers, and touches no other field; \<open>updateChallenges\<close> installs the two
  maps and the key list that the scan of the rows built from empty maps, and leaves
  \<open>regions\<close> alone. And when a query of the store fails, or the scan of one of its rows
  does, the cycle returns an error.
\<close>

theorem refresh_atomic:
  "(fst (updateRegions r cy) = Some err \<longrightarrow> snd (updateRegions r cy) = r) \<and>
   (fst (updateChallenges r q) = Some err' \<longrightarrow> snd (updateChallenges r q) = r) \<and>
   (fst (updateRegions r cy2) = None \<longrightarrow>
      (\<exists>rows1 out rows2 mapLayers rows3 out'.
         Begin cy2 = None \<and>
         regionRows cy2 = Inr rows1 \<and> scanRegions rows1 Map.empty = Inr out \<and>
         layerRows cy2 = Inr rows2 \<and> scanLayers rows2 Map.empty = Inr mapLayers \<and>
         pairRows cy2 = Inr rows3 \<and>
         attachLayers rows3 (enrich (fetched cy2) mapLayers) out = Inr out' \<and>
         snd (updateRegions r cy2) = r\<lparr>regions := out'\<rparr> \<and>
         regions (snd (updateRegions r cy2)) = out' \<and>
         challenges (snd (updateRegions r cy2)) = challenges r \<and>
         challengesByRegion (snd (updateRegions r cy2)) = challengesByRegion r \<and>
         regionsWithChallenges (snd (updateRegions r cy2)) = regionsWithChallenges r)) \<and>
   (fst (updateChallenges r q2) = None \<longrightarrow>
      (\<exists>rows cs byRegion keys.
         q2 = Inr rows \<and>
         scanChallenges rows (Map.empty, Map.empty, []) = Inr (cs, byRegion, keys) \<and>
         snd (updateChallenges r q2) =
           r\<lparr>challenges := cs, challengesByRegion := byRegion, regionsWithChallenges := keys\<rparr> \<and>
         challenges (snd (updateChallenges r q2)) = cs \<and>
         challengesByRegion (snd (updateChallenges r q2)) = byRegion \<and>
         regionsWithChallenges (snd (updateChallenges r q2)) = keys \<and>
         regions (snd (updateChallenges r q2)) = regions r)) \<and>
   (Begin cy3 = Some e \<or> regionRows cy3 = Inl e \<or> layerRows cy3 = Inl e \<or> pairRows cy3 = Inl e \<or>
      Inl e \<in> set (projr (regionRows cy3)) \<or> Inl e \<in> set (projr (layerRows cy3)) \<or>
      Inl e \<in> set (projr (pairRows cy3))
      \<longrightarrow> (\<exists>e'. fst (updateRegions r cy3) = Some e')) \<and>
   (q3 = Inl e3 \<or> Inl e3 \<in> set (projr q3) \<longrightarrow> (\<exists>e'. fst (updateChallenges r q3) = Some e'))"
proof (intro conjI impI)
  assume "fst (updateRegions r cy) = Some err"
  then show "snd (updateRegions r cy) = r" by (rule updateRegions_failure)
next
  assume "fst (updateChallenges r q) = Some err'"
  then show "snd (updateChallenges r q) = r" by (rule updateChallenges_failure)
next
  assume "fst (updateRegions r cy2) = None"
  from updateRegions_success [OF this] obtain rows1 out rows2 mapLayers rows3 out' where
    h: "Begin cy2 = None" "regionRows cy2 = Inr rows1" "scanRegions rows1 Map.empty = Inr out"
      "layerRows cy2 = Inr rows2" "scanLayers rows2 Map.empty = Inr mapLayers"
      "pairRows cy2 = Inr rows3"
      "attachLayers rows3 (enrich (fetched cy2) mapLayers) out = Inr out'"
      "snd (updateRegions r cy2) = r\<lparr>regions := out'\<rparr>"
    by blast
  show "\<exists>rows1 out rows2 mapLayers rows3 out'.
         Begin cy2 = None \<and>
         regionRows cy2 = Inr rows1 \<and> scanRegions rows1 Map.empty = Inr out \<and>
         layerRows cy2 = Inr rows2 \<and> scanLayers rows2 Map.empty = Inr mapLayers \<and>
         pairRows cy2 = Inr rows3 \<and>
         attachLayers rows3 (enrich (fetched cy2) mapLayers) out = Inr out' \<and>
         snd (updateRegions r cy2) = r\<lparr>regions := out'\<rparr> \<and>
         regions (snd (updateRegions r cy2)) = out' \<and>
         challenges (snd (updateRegions r cy2)) = challenges r \<and>
         challengesByRegion (snd (updateRegions r cy2)) = challengesByRegion r \<and>
         regionsWithChallenges (snd (updateRegions r cy2)) = regionsWithChallenges r"
    by (intro exI [of _ rows1] exI [of _ out] exI [of _ rows2] exI [of _ mapLayers]
        exI [of _ rows3] exI [of _ out']) (simp add: h)
next
  assume "fst (updateChallenges r q2) = None"
  from updateChallenges_success [OF this] obtain rows cs byRegion keys where
    h: "q2 = Inr rows" "scanChallenges rows (Map.empty, Map.empty, []) = Inr (cs, byRegion, keys)"
      "snd (updateChallenges r q2) =
        r\<lparr>challenges := cs, challengesByRegion := byRegion, regionsWithChallenges := keys\<rparr>"
    by blast
  show "\<exists>rows cs byRegion keys.
         q2 = Inr rows \<and>
         scanChallenges rows (Map.empty, Map.empty, []) = Inr (cs, byRegion, keys) \<and>
         snd (updateChallenges r q2) =
           r\<lparr>challenges := cs, challengesByRegion := byRegion, regionsWithChallenges := keys\<rparr> \<and>
         challenges (snd (updateChallenges r q2)) = cs \<and>
         challengesByRegion (snd (updateChallenges r q2)) = byRegion \<and>
         regionsWithChallenges (snd (updateChallenges r q2)) = keys \<and>
         regions (snd (updateChallenges r q2)) = regions r"
    by (intro exI [of _ rows] exI [of _ cs] exI [of _ byRegion] exI [of _ keys])
      (simp add: h(1,2) h(3) [unfolded h(1)])
next
  assume "Begin cy3 = Some e \<or> regionRows cy3 = Inl e \<or> layerRows cy3 = Inl e \<or>
      pairRows cy3 = Inl e \<or>
      Inl e \<in> set (projr (regionRows cy3)) \<or> Inl e \<in> set (projr (layerRows cy3)) \<or>
      Inl e \<in> set (projr (pairRows cy3))"
  then show "\<exists>e'. fst (updateRegions r cy3) = Some e'" by (rule updateRegions_store_error)
next
  assume "q3 = Inl e3 \<or> Inl e3 \<in> set (projr q3)"
  then show "\<exists>e'. fst (updateChallenges r q3) = Some e'" by (rule updateChallenges_store_error)
qed

text \<open>
  The theorem at concrete cycles: a failed scan in each refresh; a region refresh that
  loads region 1 with layer 3, whose capabilities are fetched, and installs it over an
  empty snapshot; a challenge refresh that loads the row with internal id 5 in region 7;
  and a failed query in each refresh.
\<close>

theorem refresh_atomic_witness:
  "fst (updateRegions newRepo (emptyCycle\<lparr>pairRows := Inr [Inl (OtherError ''scan'')]\<rparr>))
     = Some (OtherError ''scan'') \<and>
   snd (updateRegions newRepo (emptyCycle\<lparr>pairRows := Inr [Inl (OtherError ''scan'')]\<rparr>))
     = (newRepo :: string Repo) \<and>
   fst (updateChallenges newRepo (Inr [Inr (5, 7, zeroChallenge []), Inl (OtherError ''scan'')]))
     = Some (OtherError ''scan'') \<and>
   snd (updateChallenges newRepo (Inr [Inr (5, 7, zeroChallenge []), Inl (OtherError ''scan'')]))
     = (newRepo :: string Repo) \<and>
   fst (updateRegions newRepo
     (emptyCycle\<lparr>regionRows := Inr [Inr (1, zeroRegion [])],
                 layerRows := Inr [Inr (3, (zeroMapLayer [])\<lparr>CapabilitiesXML := ''http://wmts''\<rparr>, None)],
                 fetched := (\<lambda>id' url. Inr ''<Capabilities/>''),
                 pairRows := Inr [Inr (1, 3)]\<rparr>)) = None \<and>
   snd (updateRegions newRepo
     (emptyCycle\<lparr>regionRows := Inr [Inr (1, zeroRegion [])],
                 layerRows := Inr [Inr (3, (zeroMapLayer [])\<lparr>CapabilitiesXML := ''http://wmts''\<rparr>, None)],
                 fetched := (\<lambda>id' url. Inr ''<Capabilities/>''),
                 pairRows := Inr [Inr (1, 3)]\<rparr>))
     = newRepo\<lparr>regions :=
         [1 \<mapsto> (zeroRegion [])\<lparr>Region.ID := ''1'',
               MapLayer := (zeroMapLayer [])\<lparr>MapLayer.ID := ''3'',
                                               CapabilitiesXML := ''<Capabilities/>''\<rparr>\<rparr>]\<rparr> \<and>
   fst (updateChallenges (newRepo :: string Repo) (Inr [Inr (5, 7, zeroChallenge [])])) = None \<and>
   snd (updateChallenges (newRepo :: string Repo) (Inr [Inr (5, 7, zeroChallenge [])]))
     = newRepo\<lparr>
         challenges := [5 \<mapsto> (zeroChallenge [])\<lparr>Challenge.ID := ''au'', RegionID := ''7''\<rparr>],
         challengesByRegion := [7 \<mapsto> [(zeroChallenge [])\<lparr>Challenge.ID := ''au'', RegionID := ''7''\<rparr>]],
         regionsWithChallenges := [7]\<rparr> \<and>
   regionRows (emptyCycle\<lparr>regionRows := Inl (OtherError ''query'')\<rparr>) = Inl (OtherError ''query'') \<and>
   (\<exists>e'. fst (updateRegions (newRepo :: string Repo)
             (emptyCycle\<lparr>regionRows := Inl (OtherError ''query'')\<rparr>)) = Some e') \<and>
   (\<exists>e'. fst (updateChallenges (newRepo :: string Repo) (Inl (OtherError ''query''))) = Some e')"
proof -
  let ?cy = "emptyCycle\<lparr>pairRows := Inr [Inl (OtherError ''scan'')]\<rparr>"
  let ?q = "Inr [Inr (5, 7, zeroChallenge []), Inl (OtherError ''scan'')]
              :: error + (int \<times> int \<times> string Challenge) rows"
  let ?cy2 = "emptyCycle\<lparr>regionRows := Inr [Inr (1, zeroRegion [])],
                 layerRows := Inr [Inr (3, (zeroMapLayer [])\<lparr>CapabilitiesXML := ''http://wmts''\<rparr>, None)],
                 fetched := (\<lambda>id' url. Inr ''<Capabilities/>''),
                 pairRows := Inr [Inr (1, 3)]\<rparr>"
  let ?q2 = "Inr [Inr (5, 7, zeroChallenge [])] :: error + (int \<times> int \<times> string Challenge) rows"
  let ?cy3 = "emptyCycle\<lparr>regionRows := Inl (OtherError ''query'')\<rparr>"
  let ?c = "(zeroChallenge [])\<lparr>Challenge.ID := ''au'', RegionID := ''7''\<rparr>"
  have e5: "encodeChallengeID 5 = Inr ''au''" by code_simp
  have f: "FormatInt 1 = ''1''" "FormatInt 3 = ''3''" "FormatInt 7 = ''7''" by code_simp+
  have h1: "fst (updateRegions (newRepo :: string Repo) ?cy) = Some (OtherError ''scan'')"
    by (simp add: updateRegions_def emptyCycle_def)
  have h2: "fst (updateChallenges (newRepo :: string Repo) ?q) = Some (OtherError ''scan'')"
    by (simp add: updateChallenges_def e5 Let_def)
  have h3: "fst (updateRegions (newRepo :: string Repo) ?cy2) = None"
    by (simp add: updateRegions_def emptyCycle_def enrich_def)
  have h4: "fst (updateChallenges (newRepo :: string Repo) ?q2) = None"
    by (simp add: updateChallenges_def e5 Let_def)
  have h5: "regionRows ?cy3 = Inl (OtherError ''query'')" by simp
  note t = refresh_atomic [of newRepo ?cy "OtherError ''scan''" ?q "OtherError ''scan''" ?cy2
      ?q2 ?cy3 "OtherError ''query''" "Inl (OtherError ''query'')" "OtherError ''query''"]
  from t h1 have a1: "snd (updateRegions newRepo ?cy) = (newRepo :: string Repo)" by blast
  from t h2 have a2: "snd (updateChallenges newRepo ?q) = (newRepo :: string Repo)" by blast
  from t h3 obtain rows1 out rows2 mapLayers rows3 out' where
    r: "regionRows ?cy2 = Inr rows1" "scanRegions rows1 Map.empty = Inr out"
      "layerRows ?cy2 = Inr rows2" "scanLayers rows2 Map.empty = Inr mapLayers"
      "pairRows ?cy2 = Inr rows3"
      "attachLayers rows3 (enrich (fetched ?cy2) mapLayers) out = Inr out'"
      "snd (updateRegions (newRepo :: string Repo) ?cy2) = newRepo\<lparr>regions := out'\<rparr>"
    by blast
  have a3: "snd (updateRegions (newRepo :: string Repo) ?cy2)
     = newRepo\<lparr>regions :=
         [1 \<mapsto> (zeroRegion [])\<lparr>Region.ID := ''1'',
               MapLayer := (zeroMapLayer [])\<lparr>MapLayer.ID := ''3'',
                                               CapabilitiesXML := ''<Capabilities/>''\<rparr>\<rparr>]\<rparr>"
    using r by (auto simp: enrich_def f Let_def)
  from t h4 obtain rows cs byRegion keys where
    c: "?q2 = Inr rows" "scanChallenges rows (Map.empty, Map.empty, []) = Inr (cs, byRegion, keys)"
      "snd (updateChallenges (newRepo :: string Repo) ?q2) =
        newRepo\<lparr>challenges := cs, challengesByRegion := byRegion, regionsWithChallenges := keys\<rparr>"
    by blast
  have a4: "snd (updateChallenges (newRepo :: string Repo) ?q2)
     = newRepo\<lparr>challenges := [5 \<mapsto> ?c], challengesByRegion := [7 \<mapsto> [?c]],
                regionsWithChallenges := [7]\<rparr>"
    using c by (auto simp: e5 f Let_def sliceAt_def)
  from t h5 have a5: "\<exists>e'. fst (updateRegions (newRepo :: string Repo) ?cy3) = Some e'" by blast
  from t have a6: "\<exists>e'. fst (updateChallenges (newRepo :: string Repo) (Inl (OtherError ''query'')))
      = Some e'" by blast
  from h1 a1 h2 a2 h3 a3 h4 a4 h5 a5 a6 show ?thesis by (intro conjI)
qed

text \<open>
  Claim C2 at the inputs where the code departs from it. An active region that has no row
  in \<open>region_map_layers\<close> is never visited by the loop that attaches or drops, and is
  published with the zero \<open>MapLayer\<close>. And a layer whose capabilities document is fetched
  with status 200 and an empty body is attached with empty \<open>CapabilitiesXML\<close>.
\<close>

theorem region_published_without_layer:
  "fst (updateRegions newRepo (emptyCycle\<lparr>regionRows := Inr [Inr (1, zeroRegion [])]\<rparr>)) = None \<and>
   (\<exists>reg. Regions (snd (updateRegions newRepo
              (emptyCycle\<lparr>regionRows := Inr [Inr (1, zeroRegion [])]\<rparr>))) 1 = Some reg \<and>
          CapabilitiesXML (MapLayer reg) = []) \<and>
   fetchCapabilities
     [(\<lparr>newRequest = None, doRequest = Inr \<lparr>StatusCode = 200, Body = Inr []\<rparr>\<rparr>, 0, 500000000)]
     = Some (Inr []) \<and>
   fst (updateRegions newRepo
     (emptyCycle\<lparr>regionRows := Inr [Inr (1, zeroRegion [])],
                 layerRows := Inr [Inr (3, (zeroMapLayer [])\<lparr>CapabilitiesXML := ''http://wmts''\<rparr>, None)],
                 fetched := (\<lambda>id' url. Inr []),
                 pairRows := Inr [Inr (1, 3)]\<rparr>)) = None \<and>
   (\<exists>reg. Regions (snd (updateRegions newRepo
     (emptyCycle\<lparr>regionRows := Inr [Inr (1, zeroRegion [])],
                 layerRows := Inr [Inr (3, (zeroMapLayer [])\<lparr>CapabilitiesXML := ''http://wmts''\<rparr>, None)],
                 fetched := (\<lambda>id' url. Inr []),
                 pairRows := Inr [Inr (1, 3)]\<rparr>))) 1 = Some reg \<and>
          MapLayer.ID (MapLayer reg) = ''3'' \<and> CapabilitiesXML (MapLayer reg) = [])"
proof -
  have f3: "FormatInt 3 = ''3''" by code_simp
  have v: "utf8_Valid []" by (simp add: utf8_Valid_def)
  show ?thesis
    by (simp add: updateRegions_def emptyCycle_def Regions_def zeroRegion_def zeroMapLayer_def
        newRepo_def fetchCapabilities_def attempt_def StatusOK_def v enrich_def f3)
qed

text \<open>
  Claim C7 at the input where the first revision of \<open>updateChallenges\<close> departs from
  it. The row with internal id 5 in region 7 is stored under the key 7, the region id:
  the key 5 is unbound, and \<open>Challenge(encodeChallengeID(5))\<close> does not find the row.
\<close>

theorem challenges_keyed_by_region_rev1:
  "fst (updateChallenges_rev1 newRepo (Inr [Inr (5, zeroChallenge 7)])) = None \<and>
   challenges (snd (updateChallenges_rev1 newRepo (Inr [Inr (5, zeroChallenge 7)]))) 5 = None \<and>
   challenges (snd (updateChallenges_rev1 newRepo (Inr [Inr (5, zeroChallenge 7)]))) 7
     = Some ((zeroChallenge 7)\<lparr>Challenge.ID := ''au''\<rparr>) \<and>
   encodeChallengeID 5 = Inr ''au'' \<and>
   Challenge (snd (updateChallenges_rev1 newRepo (Inr [Inr (5, zeroChallenge 7)]))) ''au''
     = Inl ChallengeNotFoundError"
proof -
  have e5: "encodeChallengeID 5 = Inr ''au''" by code_simp
  have d5: "decodeChallengeID ''au'' = Inr 5" by code_simp
  show ?thesis
    by (simp add: updateChallenges_rev1_def newRepo_def e5 d5 Let_def Challenge_def
        zeroChallenge_def)
qed

section \<open>The claims about the random choice\<close>

lemma concat_singletons: "concat (map (\<lambda>k. [f k]) ks) = map f ks"
  by (induction ks) simp_all

lemma uniform_index:
  assumes "xs \<noteq> []"
  shows "bindD (Intn (int (length xs))) (\<lambda>i. [(Inr (xs ! nat i), 1)])
           = map (\<lambda>x. (Inr x, 1 / of_nat (length xs))) xs"
proof -
  have "bindD (Intn (int (length xs))) (\<lambda>i. [(Inr (xs ! nat i), 1)])
      = map (\<lambda>k. (Inr (xs ! k), 1 / of_nat (length xs))) [0..<length xs]"
    using assms by (simp add: bindD_def Intn_def comp_def concat_singletons)
  also have "\<dots> = map (\<lambda>x. (Inr x, 1 / of_nat (length xs))) (map ((!) xs) [0..<length xs])"
    by (simp add: comp_def)
  also have "\<dots> = map (\<lambda>x. (Inr x, 1 / of_nat (length xs))) xs"
    by (simp only: map_nth)
  finally show ?thesis .
qed

lemma prob_uniform_absent:
  "x \<notin> set xs \<Longrightarrow> prob (map (\<lambda>y. (Inr y, w)) xs) (\<lambda>z. z = Inr x) = 0"
  by (induction xs) (auto simp: prob_def)

lemma prob_uniform_distinct:
  "distinct xs \<Longrightarrow> x \<in> set xs \<Longrightarrow> prob (map (\<lambda>y. (Inr y, w)) xs) (\<lambda>z. z = Inr x) = w"
proof (induction xs)
  case Nil
  then show ?case by simp
next
  case (Cons a xs)
  show ?case
  proof (cases "a = x")
    case True
    with Cons.prems have "x \<notin> set xs" by simp
    from prob_uniform_absent [OF this, of w] True show ?thesis by (simp add: prob_def)
  next
    case False
    with Cons show ?thesis by (simp add: prob_def)
  qed
qed

lemma pickRegion_uniform:
  "regionsWithChallenges r \<noteq> [] \<Longrightarrow>
   pickRegion r None =
     map (\<lambda>rid. (Inr rid, 1 / of_nat (length (regionsWithChallenges r)))) (regionsWithChallenges r)"
  by (simp add: pickRegion_def uniform_index)

lemma pickChallenge_uniform:
  "sliceAt (challengesByRegion r) regionID \<noteq> [] \<Longrightarrow>
   pickChallenge r regionID =
     map (\<lambda>c. (Inr c, 1 / of_nat (length (sliceAt (challengesByRegion r) regionID))))
       (sliceAt (challengesByRegion r) regionID)"
  by (simp add: pickChallenge_def Let_def uniform_index)

text \<open>
  Claim C5. With a non-empty list of regions with challenges, the first stage gives
  every entry of that list the weight \<open>1 / len(regionsWithChallenges)\<close>, whatever the
  lengths of the regions' lists; for a list without repetition that is the probability of
  each region. The second stage gives every entry of the chosen region's list the weight
  \<open>1 / len(list)\<close>. \<open>RandomChallenge(nil)\<close> is the first stage followed by the second.
  It is not uniform over all challenges: after loading one challenge in region 1 and two
  in region 2, the one of region 1 is returned with probability 1/2 and each of the other
  two with probability 1/4.
\<close>

theorem RandomChallenge_two_stage:
  "(regionsWithChallenges r \<noteq> [] \<longrightarrow>
      pickRegion r None =
        map (\<lambda>rid. (Inr rid, 1 / of_nat (length (regionsWithChallenges r))))
          (regionsWithChallenges r)) \<and>
   (regionsWithChallenges r \<noteq> [] \<and> distinct (regionsWithChallenges r) \<and>
      rid \<in> set (regionsWithChallenges r) \<longrightarrow>
      prob (pickRegion r None) (\<lambda>x. x = Inr rid) = 1 / of_nat (length (regionsWithChallenges r))) \<and>
   (sliceAt (challengesByRegion r) regionID \<noteq> [] \<longrightarrow>
      pickChallenge r regionID =
        map (\<lambda>c. (Inr c, 1 / of_nat (length (sliceAt (challengesByRegion r) regionID))))
          (sliceAt (challengesByRegion r) regionID)) \<and>
   RandomChallenge r None = bindD (pickRegion r None) (pickChallenge r) \<and>
   prob (RandomChallenge (snd (updateChallenges newRepo
           (Inr [Inr (1, 1, zeroChallenge []), Inr (2, 2, zeroChallenge []),
                 Inr (3, 2, zeroChallenge [])]))) None)
        (\<lambda>x. x = Inr ((zeroChallenge [])\<lparr>Challenge.ID := ''ae'', RegionID := ''1''\<rparr>)) = 1 / 2 \<and>
   prob (RandomChallenge (snd (updateChallenges newRepo
           (Inr [Inr (1, 1, zeroChallenge []), Inr (2, 2, zeroChallenge []),
                 Inr (3, 2, zeroChallenge [])]))) None)
        (\<lambda>x. x = Inr ((zeroChallenge [])\<lparr>Challenge.ID := ''ai'', RegionID := ''2''\<rparr>)) = 1 / 4 \<and>
   prob (RandomChallenge (snd (updateChallenges newRepo
           (Inr [Inr (1, 1, zeroChallenge []), Inr (2, 2, zeroChallenge []),
                 Inr (3, 2, zeroChallenge [])]))) None)
        (\<lambda>x. x = Inr ((zeroChallenge [])\<lparr>Challenge.ID := ''am'', RegionID := ''2''\<rparr>)) = 1 / 4"
proof -
  let ?rows = "Inr [Inr (1, 1, zeroChallenge []), Inr (2, 2, zeroChallenge []),
                 Inr (3, 2, zeroChallenge [])] :: error + (int \<times> int \<times> string Challenge) rows"
  let ?s = "snd (updateChallenges newRepo ?rows)"
  have e: "encodeChallengeID 1 = Inr ''ae''" "encodeChallengeID 2 = Inr ''ai''"
    "encodeChallengeID 3 = Inr ''am''" by code_simp+
  have f: "FormatInt 1 = ''1''" "FormatInt 2 = ''2''" by code_simp+
  have s: "?s = newRepo\<lparr>
      challenges := [1 \<mapsto> (zeroChallenge [])\<lparr>Challenge.ID := ''ae'', RegionID := ''1''\<rparr>,
                     2 \<mapsto> (zeroChallenge [])\<lparr>Challenge.ID := ''ai'', RegionID := ''2''\<rparr>,
                     3 \<mapsto> (zeroChallenge [])\<lparr>Challenge.ID := ''am'', RegionID := ''2''\<rparr>],
      challengesByRegion := [1 \<mapsto> [(zeroChallenge [])\<lparr>Challenge.ID := ''ae'', RegionID := ''1''\<rparr>],
                             2 \<mapsto> [(zeroChallenge [])\<lparr>Challenge.ID := ''ai'', RegionID := ''2''\<rparr>,
                                    (zeroChallenge [])\<lparr>Challenge.ID := ''am'', RegionID := ''2''\<rparr>]],
      regionsWithChallenges := [1, 2]\<rparr>"
    by (simp add: updateChallenges_def e f Let_def sliceAt_def)
  have rc: "RandomChallenge ?s None =
     [(Inr ((zeroChallenge [])\<lparr>Challenge.ID := ''ae'', RegionID := ''1''\<rparr>), 1 / 2),
      (Inr ((zeroChallenge [])\<lparr>Challenge.ID := ''ai'', RegionID := ''2''\<rparr>), 1 / 4),
      (Inr ((zeroChallenge [])\<lparr>Challenge.ID := ''am'', RegionID := ''2''\<rparr>), 1 / 4)]"
    unfolding s
    by (simp add: RandomChallenge_def pickRegion_uniform pickChallenge_uniform sliceAt_def
        bindD_def newRepo_def)
  have p: "prob (RandomChallenge ?s None)
        (\<lambda>x. x = Inr ((zeroChallenge [])\<lparr>Challenge.ID := ''ae'', RegionID := ''1''\<rparr>)) = 1 / 2"
     "prob (RandomChallenge ?s None)
        (\<lambda>x. x = Inr ((zeroChallenge [])\<lparr>Challenge.ID := ''ai'', RegionID := ''2''\<rparr>)) = 1 / 4"
     "prob (RandomChallenge ?s None)
        (\<lambda>x. x = Inr ((zeroChallenge [])\<lparr>Challenge.ID := ''am'', RegionID := ''2''\<rparr>)) = 1 / 4"
    unfolding rc by (simp_all add: prob_def zeroChallenge_def)
  have a: "regionsWithChallenges r \<noteq> [] \<and> distinct (regionsWithChallenges r) \<and>
      rid \<in> set (regionsWithChallenges r) \<longrightarrow>
      prob (pickRegion r None) (\<lambda>x. x = Inr rid) = 1 / of_nat (length (regionsWithChallenges r))"
    by (simp add: pickRegion_uniform prob_uniform_distinct)
  show ?thesis
    using pickRegion_uniform [of r] pickChallenge_uniform [of r regionID] a p
    by (simp only: RandomChallenge_def) blast
qed

theorem RandomChallenge_two_stage_witness:
  "regionsWithChallenges (snd (updateChallenges newRepo
      (Inr [Inr (1, 1, zeroChallenge []), Inr (2, 2, zeroChallenge []),
            Inr (3, 2, zeroChallenge [])]))) = [1, 2] \<and>
   prob (pickRegion (snd (updateChallenges newRepo
      (Inr [Inr (1, 1, zeroChallenge []), Inr (2, 2, zeroChallenge []),
            Inr (3, 2, zeroChallenge [])]))) None) (\<lambda>x. x = Inr 2) = 1 / 2 \<and>
   sliceAt (challengesByRegion (snd (updateChallenges newRepo
      (Inr [Inr (1, 1, zeroChallenge []), Inr (2, 2, zeroChallenge []),
            Inr (3, 2, zeroChallenge [])])))) 2
     = [(zeroChallenge [])\<lparr>Challenge.ID := ''ai'', RegionID := ''2''\<rparr>,
        (zeroChallenge [])\<lparr>Challenge.ID := ''am'', RegionID := ''2''\<rparr>] \<and>
   pickChallenge (snd (updateChallenges newRepo
      (Inr [Inr (1, 1, zeroChallenge []), Inr (2, 2, zeroChallenge []),
            Inr (3, 2, zeroChallenge [])]))) 2
     = [(Inr ((zeroChallenge [])\<lparr>Challenge.ID := ''ai'', RegionID := ''2''\<rparr>), 1 / 2),
        (Inr ((zeroChallenge [])\<lparr>Challenge.ID := ''am'', RegionID := ''2''\<rparr>), 1 / 2)]"
proof -
  let ?rows = "Inr [Inr (1, 1, zeroChallenge []), Inr (2, 2, zeroChallenge []),
                 Inr (3, 2, zeroChallenge [])] :: error + (int \<times> int \<times> string Challenge) rows"
  let ?s = "snd (updateChallenges newRepo ?rows)"
  have e: "encodeChallengeID 1 = Inr ''ae''" "encodeChallengeID 2 = Inr ''ai''"
    "encodeChallengeID 3 = Inr ''am''" by code_simp+
  have f: "FormatInt 1 = ''1''" "FormatInt 2 = ''2''" by code_simp+
  have k: "regionsWithChallenges ?s = [1, 2]"
    by (simp add: updateChallenges_def e f Let_def sliceAt_def)
  have l: "sliceAt (challengesByRegion ?s) 2
     = [(zeroChallenge [])\<lparr>Challenge.ID := ''ai'', RegionID := ''2''\<rparr>,
        (zeroChallenge [])\<lparr>Challenge.ID := ''am'', RegionID := ''2''\<rparr>]"
    by (simp add: updateChallenges_def e f Let_def sliceAt_def)
  have h1: "regionsWithChallenges ?s \<noteq> [] \<and> distinct (regionsWithChallenges ?s) \<and>
      2 \<in> set (regionsWithChallenges ?s)"
    by (simp only: k) simp
  have h2: "sliceAt (challengesByRegion ?s) 2 \<noteq> []" by (simp only: l) simp
  from RandomChallenge_two_stage [of ?s 2 2] h1
  have "prob (pickRegion ?s None) (\<lambda>x. x = Inr 2) = 1 / of_nat (length (regionsWithChallenges ?s))"
    by blast
  then have p: "prob (pickRegion ?s None) (\<lambda>x. x = Inr 2) = 1 / 2" by (simp only: k) simp
  from RandomChallenge_two_stage [of ?s 2 2] h2
  have "pickChallenge ?s 2 =
      map (\<lambda>c. (Inr c, 1 / of_nat (length (sliceAt (challengesByRegion ?s) 2))))
        (sliceAt (challengesByRegion ?s) 2)"
    by blast
  then have c: "pickChallenge ?s 2
     = [(Inr ((zeroChallenge [])\<lparr>Challenge.ID := ''ai'', RegionID := ''2''\<rparr>), 1 / 2),
        (Inr ((zeroChallenge [])\<lparr>Challenge.ID := ''am'', RegionID := ''2''\<rparr>), 1 / 2)]"
    by (simp only: l) simp
  from k p l c show ?thesis by (intro conjI)
qed

section \<open>The claims about the capability fetch\<close>

lemma attempt_success_iff:
  "attempt a = Inr out \<longleftrightarrow>
     newRequest a = None \<and>
     (\<exists>resp. doRequest a = Inr resp \<and> StatusCode resp = 200 \<and> Body resp = Inr out \<and> utf8_Valid out)"
  by (auto simp: attempt_def StatusOK_def Let_def split: option.splits sum.splits if_splits)

lemma attempt_status_error:
  "newRequest a = None \<Longrightarrow> doRequest a = Inr resp \<Longrightarrow> StatusCode resp \<noteq> 200 \<Longrightarrow>
   Body resp = Inr body \<Longrightarrow>
   attempt a = Inl (OtherError (''unexpected status code '' @ FormatInt (StatusCode resp) @ '': '' @ body))"
  by (simp add: attempt_def StatusOK_def)

lemma Retry_skips_failures:
  "\<forall>(b, el, nx) \<in> set pre. (\<exists>e. attempt b = Inl e) \<and> el + nx \<le> MaxElapsedTime \<Longrightarrow>
   Retry (pre @ rest) = Retry rest"
proof (induction pre)
  case Nil
  then show ?case by simp
next
  case (Cons x pre)
  obtain b el nx where x: "x = (b, el, nx)" by (cases x) auto
  with Cons.prems obtain e where "attempt b = Inl e" "el + nx \<le> MaxElapsedTime" by auto
  with Cons x show ?case by (simp add: NextBackOff_def)
qed

text \<open>
  Claim C8, as amended. One attempt succeeds exactly when the request is built, a
  response arrives with status 200, its body is read and is valid UTF-8; the body is
  then the result. A response with another status gives an error that carries the status
  and the body. The budget is one minute. While the attempts fail and the next interval
  still ends within the budget, \<open>fetchCapabilities\<close> goes on: it returns the body of the
  first attempt that succeeds, or the error of the first failed attempt after which the
  next interval would pass the budget.
\<close>

theorem fetchCapabilities_attempts:
  "(attempt a = Inr out \<longleftrightarrow>
      newRequest a = None \<and>
      (\<exists>resp. doRequest a = Inr resp \<and> StatusCode resp = 200 \<and> Body resp = Inr out \<and>
         utf8_Valid out)) \<and>
   (newRequest a2 = None \<and> doRequest a2 = Inr resp2 \<and> StatusCode resp2 \<noteq> 200 \<and>
      Body resp2 = Inr body \<longrightarrow>
      attempt a2 = Inl (OtherError (''unexpected status code '' @ FormatInt (StatusCode resp2) @
                                    '': '' @ body))) \<and>
   MaxElapsedTime = 60 * 1000000000 \<and>
   ((\<forall>(b, el, nx) \<in> set pre. (\<exists>e. attempt b = Inl e) \<and> el + nx \<le> MaxElapsedTime) \<and>
      attempt a3 = Inr out3 \<longrightarrow>
      fetchCapabilities (pre @ (a3, el3, nx3) # post) = Some (Inr out3)) \<and>
   ((\<forall>(b, el, nx) \<in> set pre4. (\<exists>e. attempt b = Inl e) \<and> el + nx \<le> MaxElapsedTime) \<and>
      attempt a4 = Inl err \<and> el4 + nx4 > MaxElapsedTime \<longrightarrow>
      fetchCapabilities (pre4 @ (a4, el4, nx4) # post4) = Some (Inl err))"
proof (intro conjI impI)
  show "attempt a = Inr out \<longleftrightarrow>
      newRequest a = None \<and>
      (\<exists>resp. doRequest a = Inr resp \<and> StatusCode resp = 200 \<and> Body resp = Inr out \<and>
         utf8_Valid out)"
    by (rule attempt_success_iff)
next
  assume "newRequest a2 = None \<and> doRequest a2 = Inr resp2 \<and> StatusCode resp2 \<noteq> 200 \<and>
      Body resp2 = Inr body"
  then show "attempt a2 = Inl (OtherError (''unexpected status code '' @
      FormatInt (StatusCode resp2) @ '': '' @ body))"
    by (simp add: attempt_status_error)
next
  show "MaxElapsedTime = 60 * 1000000000" by (simp add: MaxElapsedTime_def)
next
  assume h: "(\<forall>(b, el, nx) \<in> set pre. (\<exists>e. attempt b = Inl e) \<and> el + nx \<le> MaxElapsedTime) \<and>
      attempt a3 = Inr out3"
  then have "Retry (pre @ (a3, el3, nx3) # post) = Retry ((a3, el3, nx3) # post)"
    by (intro Retry_skips_failures) simp
  with h show "fetchCapabilities (pre @ (a3, el3, nx3) # post) = Some (Inr out3)"
    by (simp add: fetchCapabilities_def)
next
  assume h: "(\<forall>(b, el, nx) \<in> set pre4. (\<exists>e. attempt b = Inl e) \<and> el + nx \<le> MaxElapsedTime) \<and>
      attempt a4 = Inl err \<and> el4 + nx4 > MaxElapsedTime"
  then have "Retry (pre4 @ (a4, el4, nx4) # post4) = Retry ((a4, el4, nx4) # post4)"
    by (intro Retry_skips_failures) simp
  with h show "fetchCapabilities (pre4 @ (a4, el4, nx4) # post4) = Some (Inl err)"
    by (simp add: fetchCapabilities_def NextBackOff_def MaxElapsedTime_def)
qed

text \<open>
  The claim C8 as it is written fails: 203 is a 2xx status, the body is valid UTF-8, and
  the attempt is an error.
\<close>

theorem attempt_2xx_counterexample:
  "(200::int) \<le> 203 \<and> (203::int) < 300 \<and> utf8_Valid ''<Capabilities/>'' \<and>
   attempt \<lparr>newRequest = None,
            doRequest = Inr \<lparr>StatusCode = 203, Body = Inr ''<Capabilities/>''\<rparr>\<rparr>
     = Inl (OtherError ''unexpected status code 203: <Capabilities/>'')"
proof -
  have "utf8_Valid ''<Capabilities/>''" by code_simp
  moreover have "FormatInt 203 = ''203''" by code_simp
  ultimately show ?thesis by (simp add: attempt_def StatusOK_def)
qed

theorem fetchCapabilities_attempts_witness:
  "attempt \<lparr>newRequest = None, doRequest = Inr \<lparr>StatusCode = 200, Body = Inr ''<Capabilities/>''\<rparr>\<rparr>
     = Inr ''<Capabilities/>'' \<and>
   attempt \<lparr>newRequest = None, doRequest = Inr \<lparr>StatusCode = 503, Body = Inr ''busy''\<rparr>\<rparr>
     = Inl (OtherError ''unexpected status code 503: busy'') \<and>
   (1000000000::int) + 500000000 \<le> MaxElapsedTime \<and>
   fetchCapabilities
     [(\<lparr>newRequest = None, doRequest = Inr \<lparr>StatusCode = 503, Body = Inr ''busy''\<rparr>\<rparr>,
       1000000000, 500000000),
      (\<lparr>newRequest = None, doRequest = Inr \<lparr>StatusCode = 200, Body = Inr ''<Capabilities/>''\<rparr>\<rparr>,
       2000000000, 750000000)]
     = Some (Inr ''<Capabilities/>'') \<and>
   (59500000000::int) + 1000000000 > MaxElapsedTime \<and>
   fetchCapabilities
     [(\<lparr>newRequest = None, doRequest = Inr \<lparr>StatusCode = 503, Body = Inr ''busy''\<rparr>\<rparr>,
       1000000000, 500000000),
      (\<lparr>newRequest = None, doRequest = Inr \<lparr>StatusCode = 503, Body = Inr ''busy''\<rparr>\<rparr>,
       59500000000, 1000000000)]
     = Some (Inl (OtherError ''unexpected status code 503: busy''))"
proof -
  let ?ok = "\<lparr>newRequest = None, doRequest = Inr \<lparr>StatusCode = 200, Body = Inr ''<Capabilities/>''\<rparr>\<rparr>"
  let ?busy = "\<lparr>newRequest = None, doRequest = Inr \<lparr>StatusCode = 503, Body = Inr ''busy''\<rparr>\<rparr>"
  have v: "utf8_Valid ''<Capabilities/>''" by code_simp
  have f: "FormatInt 503 = ''503''" by code_simp
  have ok: "attempt ?ok = Inr ''<Capabilities/>''" by (simp add: attempt_def StatusOK_def v)
  have busy: "attempt ?busy = Inl (OtherError ''unexpected status code 503: busy'')"
    by (simp add: attempt_def StatusOK_def f)
  have pre: "\<forall>(b, el, nx) \<in> set [(?busy, 1000000000, 500000000)].
      (\<exists>e. attempt b = Inl e) \<and> el + nx \<le> MaxElapsedTime"
    by (simp add: busy MaxElapsedTime_def)
  have t: "(59500000000::int) + 1000000000 > MaxElapsedTime" by (simp add: MaxElapsedTime_def)
  from fetchCapabilities_attempts [of ?ok "''<Capabilities/>''" ?busy
      "\<lparr>StatusCode = 503, Body = Inr ''busy''\<rparr>" "''busy''"
      "[(?busy, 1000000000, 500000000)]" ?ok "''<Capabilities/>''" 2000000000 750000000 "[]"
      "[(?busy, 1000000000, 500000000)]" ?busy "OtherError ''unexpected status code 503: busy''"
      59500000000 1000000000 "[]"] ok busy pre t
  show ?thesis by (simp add: MaxElapsedTime_def)
qed

section \<open>What the second revision of the refresh builds\<close>

lemma encodeChallengeID_domain:
  "encodeChallengeID i = Inr s \<Longrightarrow> 1 \<le> i \<and> i \<le> 2 ^ 32 - 2"
  by (auto simp: encodeChallengeID_def split: if_splits)

lemma decode_of_encode: "encodeChallengeID i = Inr s \<Longrightarrow> decodeChallengeID s = Inr i"
  using decode_encode_ChallengeID [of i] encodeChallengeID_domain [of i s] by auto

lemma scanChallenges_keeps:
  "scanChallenges rows acc = Inr acc' \<Longrightarrow> i \<notin> set (map (\<lambda>row. fst (projr row)) rows) \<Longrightarrow>
   fst acc' i = fst acc i"
proof (induction rows acc rule: scanChallenges.induct)
  case (1 acc)
  then show ?case by simp
next
  case (2 err rows acc)
  then show ?case by simp
next
  case (3 internalID internalRegionID c rows cs byRegion keys)
  from "3.prems"(1) obtain opaque where o: "encodeChallengeID internalID = Inr opaque"
    by (auto split: sum.splits)
  from "3.IH" [OF o refl] "3.prems" o show ?case by (simp add: Let_def)
qed

lemma scanChallenges_binds:
  "scanChallenges rows acc = Inr acc' \<Longrightarrow> distinct (map (\<lambda>row. fst (projr row)) rows) \<Longrightarrow>
   Inr (i, rid, c) \<in> set rows \<Longrightarrow>
   \<exists>opaque. encodeChallengeID i = Inr opaque \<and>
      fst acc' i = Some (c\<lparr>Challenge.ID := opaque, RegionID := FormatInt rid\<rparr>)"
proof (induction rows acc rule: scanChallenges.induct)
  case (1 acc)
  then show ?case by simp
next
  case (2 err rows acc)
  then show ?case by simp
next
  case (3 internalID internalRegionID c0 rows cs byRegion keys)
  from "3.prems"(1) obtain opaque where o: "encodeChallengeID internalID = Inr opaque"
    by (auto split: sum.splits)
  let ?c = "c0\<lparr>Challenge.ID := opaque, RegionID := FormatInt internalRegionID\<rparr>"
  let ?acc = "(cs(internalID \<mapsto> ?c),
      byRegion(internalRegionID \<mapsto> sliceAt byRegion internalRegionID @ [?c]),
      if internalRegionID \<in> set keys then keys else keys @ [internalRegionID])"
  from "3.prems"(1) o have s: "scanChallenges rows ?acc = Inr acc'" by (simp add: Let_def)
  show ?case
  proof (cases "Inr (i, rid, c) \<in> set rows")
    case True
    with "3.IH" [OF o refl] "3.prems" o show ?thesis by (simp add: Let_def)
  next
    case False
    with "3.prems"(3) have eq: "i = internalID" "rid = internalRegionID" "c = c0" by auto
    from "3.prems"(2) have "internalID \<notin> set (map (\<lambda>row. fst (projr row)) rows)" by simp
    from scanChallenges_keeps [OF s this] o eq show ?thesis by simp
  qed
qed

text \<open>
  After a successful cycle of the second revision, over rows with distinct internal ids,
  each row's challenge is bound to its internal id and \<open>Challenge\<close> finds it under the
  opaque id.
\<close>

lemma updateChallenges_binds:
  assumes "fst (updateChallenges r (Inr rows)) = None"
    and "distinct (map (\<lambda>row. fst (projr row)) rows)"
    and "Inr (i, rid, c) \<in> set rows"
  shows "\<exists>opaque. encodeChallengeID i = Inr opaque \<and>
     challenges (snd (updateChallenges r (Inr rows))) i
       = Some (c\<lparr>Challenge.ID := opaque, RegionID := FormatInt rid\<rparr>) \<and>
     Challenge (snd (updateChallenges r (Inr rows))) opaque
       = Inr (c\<lparr>Challenge.ID := opaque, RegionID := FormatInt rid\<rparr>)"
proof -
  from assms(1) obtain acc' where
    s: "scanChallenges rows (Map.empty, Map.empty, []) = Inr acc'"
    by (auto simp: updateChallenges_def split: sum.splits)
  from scanChallenges_binds [OF s assms(2,3)] obtain opaque where
    o: "encodeChallengeID i = Inr opaque"
      "fst acc' i = Some (c\<lparr>Challenge.ID := opaque, RegionID := FormatInt rid\<rparr>)" by auto
  have c: "challenges (snd (updateChallenges r (Inr rows))) = fst acc'"
    using s by (cases acc') (simp add: updateChallenges_def)
  from o c decode_of_encode [OF o(1)] show ?thesis by (simp add: Challenge_def)
qed

text \<open>
  The derived list holds each key of \<open>challengesByRegion\<close> once, and every list in that
  map has an entry.
\<close>

lemma scanChallenges_keys:
  "scanChallenges rows (cs, byRegion, keys) = Inr (cs', byRegion', keys') \<Longrightarrow>
   set keys = dom byRegion \<Longrightarrow> distinct keys \<Longrightarrow> [] \<notin> ran byRegion \<Longrightarrow>
   set keys' = dom byRegion' \<and> distinct keys' \<and> [] \<notin> ran byRegion'"
proof (induction rows "(cs, byRegion, keys)" arbitrary: cs byRegion keys
    rule: scanChallenges.induct)
  case 1
  then show ?case by simp
next
  case (2 err rows)
  then show ?case by simp
next
  case (3 internalID internalRegionID c rows cs byRegion keys)
  from "3.prems"(1) obtain opaque where o: "encodeChallengeID internalID = Inr opaque"
    by (auto split: sum.splits)
  let ?c = "c\<lparr>Challenge.ID := opaque, RegionID := FormatInt internalRegionID\<rparr>"
  let ?b = "byRegion(internalRegionID \<mapsto> sliceAt byRegion internalRegionID @ [?c])"
  let ?k = "if internalRegionID \<in> set keys then keys else keys @ [internalRegionID]"
  from "3.prems"(1) o have s: "scanChallenges rows (cs(internalID \<mapsto> ?c), ?b, ?k)
      = Inr (cs', byRegion', keys')" by (simp add: Let_def)
  have k: "set ?k = dom ?b" using "3.prems"(2) by auto
  have d: "distinct ?k" using "3.prems"(3) by simp
  have n: "[] \<notin> ran ?b" using "3.prems"(4) by (auto simp: ran_def)
  from "3.hyps" [OF o refl s k d n] show ?case .
qed

lemma updateChallenges_keys:
  assumes "fst (updateChallenges r q) = None"
  shows "set (regionsWithChallenges (snd (updateChallenges r q)))
       = dom (challengesByRegion (snd (updateChallenges r q))) \<and>
     distinct (regionsWithChallenges (snd (updateChallenges r q))) \<and>
     [] \<notin> ran (challengesByRegion (snd (updateChallenges r q)))"
proof -
  from assms obtain rows cs' byRegion' keys' where
    q: "q = Inr rows"
    and s: "scanChallenges rows (Map.empty, Map.empty, []) = Inr (cs', byRegion', keys')"
    by (auto simp: updateChallenges_def split: sum.splits)
  from scanChallenges_keys [OF s] show ?thesis
    by (simp add: updateChallenges_def q s)
qed

section \<open>What the region refresh drops\<close>

lemma attachLayers_stays_dropped:
  "attachLayers rows ls out = Inr out' \<Longrightarrow> out rid = None \<Longrightarrow> out' rid = None"
proof (induction rows ls out rule: attachLayers.induct)
  case (1 mapLayers out)
  then show ?case by simp
next
  case (2 err rows mapLayers out)
  then show ?case by simp
next
  case (3 regionID mlID rows mapLayers out)
  show ?case
  proof (cases "out regionID")
    case None
    with "3.prems" "3.IH"(1) show ?thesis by simp
  next
    case (Some prev)
    with "3.prems"(2) have ne: "rid \<noteq> regionID" by auto
    show ?thesis
    proof (cases "mapLayers mlID")
      case None
      with Some "3.prems" ne "3.IH"(2) [OF Some None] show ?thesis by (simp add: fun_upd_def)
    next
      case (Some ml)
      with \<open>out regionID = Some prev\<close> "3.prems" ne
        "3.IH"(3) [OF \<open>out regionID = Some prev\<close> Some] show ?thesis by (simp add: fun_upd_def)
    qed
  qed
qed

text \<open>
  A region with a row in \<open>region_map_layers\<close> whose layer is not in the working set (the
  fetch of its capabilities failed) is absent from the published map.
\<close>

lemma attachLayers_drops:
  "attachLayers rows ls out = Inr out' \<Longrightarrow> Inr (rid, lid) \<in> set rows \<Longrightarrow> ls lid = None \<Longrightarrow>
   out' rid = None"
proof (induction rows ls out rule: attachLayers.induct)
  case (1 mapLayers out)
  then show ?case by simp
next
  case (2 err rows mapLayers out)
  then show ?case by simp
next
  case (3 regionID mlID rows mapLayers out)
  show ?case
  proof (cases "Inr (rid, lid) \<in> set rows")
    case True
    with 3 show ?thesis by (auto simp: fun_upd_def split: option.splits)
  next
    case False
    with "3.prems"(2) have eq: "rid = regionID" "lid = mlID" by auto
    show ?thesis
    proof (cases "out regionID")
      case None
      with "3.prems"(1) have "attachLayers rows mapLayers out = Inr out'" by simp
      from attachLayers_stays_dropped [OF this] None eq show ?thesis by simp
    next
      case (Some prev)
      with "3.prems"(1,3) eq
      have "attachLayers rows mapLayers (out(regionID := None)) = Inr out'" by simp
      from attachLayers_stays_dropped [OF this, of regionID] eq show ?thesis by simp
    qed
  qed
qed

lemma enrich_failed: "fetch lid (CapabilitiesXML ml) = Inl err \<Longrightarrow> ls lid = Some ml \<Longrightarrow> enrich fetch ls lid = None"
  by (simp add: enrich_def)

lemma updateRegions_drops_failed_layer:
  assumes "fst (updateRegions r cy) = None"
    and "pairRows cy = Inr pairs" and "Inr (rid, lid) \<in> set pairs"
    and "layerRows cy = Inr lrows" and "scanLayers lrows Map.empty = Inr ls"
    and "ls lid = Some ml" and "fetched cy lid (CapabilitiesXML ml) = Inl err"
  shows "Regions (snd (updateRegions r cy)) rid = None"
proof -
  from assms(1,2,4,5) obtain out out' where
    a: "attachLayers pairs (enrich (fetched cy) ls) out = Inr out'"
    and r: "snd (updateRegions r cy) = r\<lparr>regions := out'\<rparr>"
    by (auto simp: updateRegions_def split: option.splits sum.splits)
  have "enrich (fetched cy) ls lid = None" using assms(6,7) by (simp add: enrich_def)
  from attachLayers_drops [OF a assms(3) this] r show ?thesis by (simp add: Regions_def)
qed

end
